theory Spec2Isabelle
  imports Main
begin

section \<open>Batch distributor: \<^verbatim>\<open>distribute_pol.py\<close>\<close>

subsection \<open>Constants\<close>

definition POLYGON_CHAIN_ID :: int where
  "POLYGON_CHAIN_ID = 137"

definition GAS_LIMIT :: int where
  "GAS_LIMIT = 21000"

subsection \<open>Errors\<close>

text \<open>
  The script raises \<^verbatim>\<open>ValueError\<close> with four different messages; each message is one
  constructor here, carrying the values the message interpolates.  Any other exception
  (raised inside \<^verbatim>\<open>json\<close> or \<^verbatim>\<open>web3\<close>, or by \<^verbatim>\<open>print\<close> or a write to the log) is
  \<open>LibraryError\<close> with its text.
\<close>

datatype error =
    MissingCredentialFile
  | InvalidPrivateKeyFormat nat
  | NoRecipientFile
  | InsufficientBalance int int
  | LibraryError string

subsection \<open>Python string helpers\<close>

text \<open>
  A \<^typ>\<open>char\<close> stands for a code point below 256.  \<open>isspace\<close> lists the code points
  below 256 that \<^verbatim>\<open>str.split()\<close> and \<^verbatim>\<open>str.strip()\<close> treat as whitespace.
\<close>

definition isspace :: "char \<Rightarrow> bool" where
  "isspace c =
     (let n = (of_char c :: nat)
      in (9 \<le> n \<and> n \<le> 13) \<or> (28 \<le> n \<and> n \<le> 32) \<or> n = 133 \<or> n = 160)"

definition strip :: "string \<Rightarrow> string" where
  "strip s = rev (dropWhile isspace (rev (dropWhile isspace s)))"

text \<open>\<^verbatim>\<open>''.join(s.split())\<close>: the maximal runs of non-whitespace, concatenated.\<close>

fun split_ws :: "string \<Rightarrow> string \<Rightarrow> string list" where
  "split_ws cur [] = (if cur = [] then [] else [cur])"
| "split_ws cur (c # cs) =
     (if isspace c then (if cur = [] then split_ws [] cs else cur # split_ws [] cs)
      else split_ws (cur @ [c]) cs)"

definition join_split :: "string \<Rightarrow> string" where
  "join_split s = concat (split_ws [] s)"

definition startswith :: "string \<Rightarrow> string \<Rightarrow> bool" where
  "startswith s p = (take (length p) s = p)"

subsection \<open>\<^verbatim>\<open>load_private_key\<close>\<close>

text \<open>
  The argument is what opening \<^verbatim>\<open>privatekey.txt\<close> gives: \<open>None\<close> when the file does not
  exist (\<^verbatim>\<open>FileNotFoundError\<close>), the text of the file otherwise.
\<close>

definition load_private_key :: "string option \<Rightarrow> error + string" where
  "load_private_key file =
     (case file of
        None \<Rightarrow> Inl MissingCredentialFile
      | Some contents \<Rightarrow>
          (let private_key = strip contents;
               private_key = join_split private_key;
               private_key = (if \<not> startswith private_key ''0x''
                              then ''0x'' @ private_key else private_key)
           in if length private_key \<noteq> 66
              then Inl (InvalidPrivateKeyFormat (length private_key))
              else Inr private_key))"

text \<open>The credential format in the words of the specification.\<close>

definition is_hex_digit :: "char \<Rightarrow> bool" where
  "is_hex_digit c =
     (let n = (of_char c :: nat)
      in (48 \<le> n \<and> n \<le> 57) \<or> (65 \<le> n \<and> n \<le> 70) \<or> (97 \<le> n \<and> n \<le> 102))"

definition remove_whitespace :: "string \<Rightarrow> string" where
  "remove_whitespace s = filter (\<lambda>c. \<not> isspace c) s"

definition without_0x :: "string \<Rightarrow> string" where
  "without_0x s = (if startswith s ''0x'' then drop 2 s else s)"

definition normalized_secret :: "string \<Rightarrow> string" where
  "normalized_secret contents = without_0x (remove_whitespace contents)"

definition hex64 :: "string \<Rightarrow> bool" where
  "hex64 s = (length s = 64 \<and> list_all is_hex_digit s)"

subsection \<open>JSON values and the recipient file\<close>

text \<open>
  A string that comes out of \<^verbatim>\<open>json.load\<close> is a list of code points: a JSON escape can
  name any code point up to 65535, a lone surrogate included.  \<open>text_of\<close> is the text of a
  string of characters below 256.
\<close>

type_synonym unicode = "int list"

definition text_of :: "string \<Rightarrow> unicode" where
  "text_of s = map of_char s"

text \<open>What \<^verbatim>\<open>json.load\<close> returns (floats are left out: no file of this program holds one).\<close>

datatype json =
    JNull
  | JBool bool
  | JInt int
  | JStr unicode
  | JArr "json list"
  | JObj "(unicode \<times> json) list"

definition jstr :: "string \<Rightarrow> json" where
  "jstr s = JStr (text_of s)"

text \<open>\<^verbatim>\<open>wallet['public_key']\<close>: only a dict with that key has a value there.\<close>

definition subscript_public_key :: "json \<Rightarrow> string + json" where
  "subscript_public_key wallet =
     (case wallet of
        JObj kvs \<Rightarrow>
          (case map_of kvs (text_of ''public_key'') of
             None \<Rightarrow> Inl ''KeyError: public_key''
           | Some v \<Rightarrow> Inr v)
      | _ \<Rightarrow> Inl ''TypeError'')"

text \<open>\<^verbatim>\<open>for wallet in wallets_data\<close>: a list gives its items, a dict its keys, a string its
  characters; nothing else can be iterated.\<close>

definition iterate :: "json \<Rightarrow> string + json list" where
  "iterate wallets_data =
     (case wallets_data of
        JArr items \<Rightarrow> Inr items
      | JObj kvs \<Rightarrow> Inr (map (\<lambda>kv. JStr (fst kv)) kvs)
      | JStr cs \<Rightarrow> Inr (map (\<lambda>c. JStr [c]) cs)
      | _ \<Rightarrow> Inl ''TypeError'')"

fun public_keys :: "json list \<Rightarrow> string + json list" where
  "public_keys [] = Inr []"
| "public_keys (wallet # wallets) =
     (case subscript_public_key wallet of
        Inl e \<Rightarrow> Inl e
      | Inr a \<Rightarrow> (case public_keys wallets of Inl e \<Rightarrow> Inl e | Inr as \<Rightarrow> Inr (a # as)))"

text \<open>\<^verbatim>\<open>[wallet['public_key'] for wallet in wallets_data]\<close>\<close>

definition recipients_of :: "json \<Rightarrow> string + json list" where
  "recipients_of wallets_data =
     (case iterate wallets_data of Inl e \<Rightarrow> Inl e | Inr wallets \<Rightarrow> public_keys wallets)"

text \<open>
  The working directory as the distributor reads it: the credential file, the paths that
  match \<^verbatim>\<open>all_wallets_*.json\<close> in the order \<^verbatim>\<open>glob\<close> lists them, each with its creation
  time, and what opening a path and parsing it as JSON gives.
\<close>

record directory =
  privatekey_txt :: "string option"
  wallet_files :: "(string \<times> int) list"
  load_json :: "string \<Rightarrow> string + json"

text \<open>\<^verbatim>\<open>max(xs, key=f)\<close> keeps the first of several maximal items.\<close>

fun max_by :: "('a \<Rightarrow> int) \<Rightarrow> 'a \<Rightarrow> 'a list \<Rightarrow> 'a" where
  "max_by f best [] = best"
| "max_by f best (x # xs) = (if f best < f x then max_by f x xs else max_by f best xs)"

definition get_latest_wallets_file :: "directory \<Rightarrow> error + string" where
  "get_latest_wallets_file d =
     (case wallet_files d of
        [] \<Rightarrow> Inl NoRecipientFile
      | f # fs \<Rightarrow> Inr (fst (max_by snd f fs)))"

subsection \<open>The chain client\<close>

record transaction =
  tx_from :: string
  tx_to :: string
  tx_value :: int
  tx_nonce :: int
  tx_gas :: int
  tx_gasPrice :: int
  tx_chainId :: int

text \<open>
  The \<^verbatim>\<open>web3\<close> calls of the script.  A call that raises returns \<open>Inl\<close> with the text of
  the exception.  \<open>'n\<close> is the state of the remote node: the three queries read it,
  broadcasting and waiting for a receipt may change it; checksum conversion, key
  handling and signing are local.
\<close>

record 'n web3 =
  to_checksum_address :: "json \<Rightarrow> string + string"
  from_key_address :: "string \<Rightarrow> string + string"
  get_transaction_count :: "'n \<Rightarrow> string \<Rightarrow> string + int"
  get_balance :: "'n \<Rightarrow> string \<Rightarrow> string + int"
  eth_gas_price :: "'n \<Rightarrow> string + int"
  sign_transaction :: "transaction \<Rightarrow> string \<Rightarrow> string + string"
  send_raw_transaction :: "'n \<Rightarrow> string \<Rightarrow> (string + string) \<times> 'n"
  wait_for_transaction_receipt :: "'n \<Rightarrow> string \<Rightarrow> (string + string) \<times> 'n"

datatype net_call =
    Sign transaction
  | Send_raw string
  | Wait_receipt string

subsection \<open>The funding plan (lines 130 to 146)\<close>

record plan =
  sender_private_key :: string
  latest_file :: string
  recipient_addresses :: "json list"
  amount_wei :: int
  sender_address :: string
  base_nonce :: int
  sender_balance :: int
  gas_price :: int
  total_gas :: int
  total_per_transaction :: int
  total_needed :: int

definition and_then :: "error + 'a \<Rightarrow> ('a \<Rightarrow> error + 'b) \<Rightarrow> error + 'b" where
  "and_then r f = (case r of Inl e \<Rightarrow> Inl e | Inr x \<Rightarrow> f x)"

definition lib :: "string + 'a \<Rightarrow> error + 'a" where
  "lib r = (case r of Inl msg \<Rightarrow> Inl (LibraryError msg) | Inr x \<Rightarrow> Inr x)"

text \<open>
  \<open>amount\<close> is the result of \<^verbatim>\<open>Web3.to_wei(amount, 'ether')\<close>: the amount in base units.
\<close>

definition make_plan :: "'n web3 \<Rightarrow> directory \<Rightarrow> int \<Rightarrow> 'n \<Rightarrow> error + plan" where
  "make_plan w3 d amount node =
     and_then (load_private_key (privatekey_txt d)) (\<lambda>key.
     and_then (get_latest_wallets_file d) (\<lambda>latest.
     and_then (lib (load_json d latest)) (\<lambda>wallets_data.
     and_then (lib (recipients_of wallets_data)) (\<lambda>recipients.
     and_then (lib (from_key_address w3 key)) (\<lambda>sender.
     and_then (lib (get_transaction_count w3 node sender)) (\<lambda>nonce.
     and_then (lib (get_balance w3 node sender)) (\<lambda>balance.
     and_then (lib (eth_gas_price w3 node)) (\<lambda>price.
       Inr \<lparr> sender_private_key = key,
             latest_file = latest,
             recipient_addresses = recipients,
             amount_wei = amount,
             sender_address = sender,
             base_nonce = nonce,
             sender_balance = balance,
             gas_price = price,
             total_gas = price * GAS_LIMIT,
             total_per_transaction = amount + price * GAS_LIMIT,
             total_needed = (amount + price * GAS_LIMIT) * int (length recipients) \<rparr>))))))))"

subsection \<open>The log, the console and the world\<close>

text \<open>
  One constructor for each message the script writes to the log file, with the values the
  message interpolates (every per-recipient message is printed to the console as well).
\<close>

datatype log_line =
    Header
  | Details plan bool
  | Would_send nat json int int int
  | Successfully_sent nat json string
  | Failed_to_send nat json string

text \<open>
  \<^verbatim>\<open>print\<close> and \<^verbatim>\<open>log_file.write\<close> encode the message for the console and for the file,
  and raise when a character of it has no encoding there (a lone surrogate has none in
  UTF-8).  Which messages that hits depends on the two encodings, so both are given: the
  text of the exception for a message that cannot be put out, \<open>None\<close> for one that can.
\<close>

record io =
  print_raises :: "log_line \<Rightarrow> string option"
  write_raises :: "log_line \<Rightarrow> string option"

text \<open>
  What a run can change: the node, the log file, and \<open>calls\<close>, the signing, broadcast and
  receipt calls made so far, in order.
\<close>

record 'n world =
  node :: 'n
  calls :: "net_call list"
  log :: "log_line list"

text \<open>\<^verbatim>\<open>print(message)\<close> followed by \<^verbatim>\<open>log_file.write(message)\<close>: the log with the
  message added, or the exception of the first of the two that raises.\<close>

definition raised_by :: "io \<Rightarrow> log_line \<Rightarrow> string option" where
  "raised_by out message =
     (case print_raises out message of
        Some e \<Rightarrow> Some e
      | None \<Rightarrow> write_raises out message)"

definition emit :: "io \<Rightarrow> log_line list \<Rightarrow> log_line \<Rightarrow> string + log_line list" where
  "emit out lg message =
     (case raised_by out message of
        Some e \<Rightarrow> Inl e
      | None \<Rightarrow> Inr (lg @ [message]))"

subsection \<open>One iteration of the send loop (lines 168 to 197)\<close>

text \<open>The dict of lines 169 to 177; the conversion of the recipient is the one entry that
  can raise.\<close>

definition build_transaction :: "'n web3 \<Rightarrow> plan \<Rightarrow> int \<Rightarrow> json \<Rightarrow> string + transaction" where
  "build_transaction w3 p nonce recipient =
     (case to_checksum_address w3 recipient of
        Inl e \<Rightarrow> Inl e
      | Inr to_address \<Rightarrow>
          Inr \<lparr> tx_from = sender_address p,
                tx_to = to_address,
                tx_value = amount_wei p,
                tx_nonce = nonce,
                tx_gas = GAS_LIMIT,
                tx_gasPrice = gas_price p,
                tx_chainId = POLYGON_CHAIN_ID \<rparr>)"

text \<open>
  \<open>attempt\<close> is the body of the \<^verbatim>\<open>try\<close> up to the log message: \<open>Inl\<close> with the text of the
  exception when a call raises, \<open>Inr\<close> with the message otherwise.
\<close>

definition attempt ::
  "'n web3 \<Rightarrow> plan \<Rightarrow> bool \<Rightarrow> int \<times> 'n world \<Rightarrow> nat \<times> json \<Rightarrow> (string + log_line) \<times> 'n world" where
  "attempt w3 p test_mode st ir =
     (let nonce = fst st; w = snd st; i = fst ir; recipient = snd ir
      in case build_transaction w3 p nonce recipient of
           Inl e \<Rightarrow> (Inl e, w)
         | Inr transaction \<Rightarrow>
             if test_mode
             then (Inr (Would_send i recipient (tx_gasPrice transaction)
                          (tx_gas transaction) (total_per_transaction p)), w)
             else
               (let w = w\<lparr>calls := calls w @ [Sign transaction]\<rparr>
                in case sign_transaction w3 transaction (sender_private_key p) of
                     Inl e \<Rightarrow> (Inl e, w)
                   | Inr raw \<Rightarrow>
                       (let sent = send_raw_transaction w3 (node w) raw;
                            w = w\<lparr>calls := calls w @ [Send_raw raw], node := snd sent\<rparr>
                        in case fst sent of
                             Inl e \<Rightarrow> (Inl e, w)
                           | Inr tx_hash \<Rightarrow>
                               (let waited = wait_for_transaction_receipt w3 (node w) tx_hash;
                                    w = w\<lparr>calls := calls w @ [Wait_receipt tx_hash],
                                           node := snd waited\<rparr>
                                in case fst waited of
                                     Inl e \<Rightarrow> (Inl e, w)
                                   | Inr receipt_hash \<Rightarrow>
                                       (Inr (Successfully_sent i recipient receipt_hash),
                                        w)))))"

text \<open>
  The whole iteration.  The message of the body is printed and written inside the \<^verbatim>\<open>try\<close>,
  then the nonce is incremented (line 192).  The \<^verbatim>\<open>except\<close> branch catches what the body,
  the \<^verbatim>\<open>print\<close> or the write raised, prints and writes the error message and leaves the
  nonce as it is; nothing guards these two calls, so what they raise leaves the loop.
  The first component of the result is \<open>None\<close> when the loop goes on and the text of the
  exception when it ends here.
\<close>

definition send_one ::
  "'n web3 \<Rightarrow> io \<Rightarrow> plan \<Rightarrow> bool \<Rightarrow> int \<times> 'n world \<Rightarrow> nat \<times> json
     \<Rightarrow> string option \<times> int \<times> 'n world" where
  "send_one w3 out p test_mode st ir =
     (let tried = attempt w3 p test_mode st ir;
          w = snd tried;
          done = (case fst tried of
                    Inl e \<Rightarrow> Inl e
                  | Inr log_message \<Rightarrow> emit out (log w) log_message)
      in case done of
           Inr lg \<Rightarrow> (None, fst st + 1, w\<lparr>log := lg\<rparr>)
         | Inl e \<Rightarrow>
             (case emit out (log w) (Failed_to_send (fst ir) (snd ir) e) of
                Inr lg \<Rightarrow> (None, fst st, w\<lparr>log := lg\<rparr>)
              | Inl raised \<Rightarrow> (Some raised, fst st, w)))"

fun send_loop ::
  "'n web3 \<Rightarrow> io \<Rightarrow> plan \<Rightarrow> bool \<Rightarrow> int \<times> 'n world \<Rightarrow> (nat \<times> json) list
     \<Rightarrow> string option \<times> int \<times> 'n world" where
  "send_loop w3 out p test_mode st [] = (None, st)"
| "send_loop w3 out p test_mode st (ir # irs) =
     (case send_one w3 out p test_mode st ir of
        (None, st') \<Rightarrow> send_loop w3 out p test_mode st' irs
      | (Some raised, st') \<Rightarrow> (Some raised, st'))"

subsection \<open>\<^verbatim>\<open>distribute_pol\<close>\<close>

text \<open>The header line holds the time only; the details hold the name of the wallet file.\<close>

definition distribute_pol ::
  "'n web3 \<Rightarrow> io \<Rightarrow> directory \<Rightarrow> bool \<Rightarrow> int \<Rightarrow> 'n world \<Rightarrow> (error + unit) \<times> 'n world" where
  "distribute_pol w3 out d test_mode amount w =
     (case make_plan w3 d amount (node w) of
        Inl e \<Rightarrow> (Inl e, w)
      | Inr p \<Rightarrow>
          if sender_balance p < total_needed p
          then (Inl (InsufficientBalance (total_needed p) (sender_balance p)), w)
          else
            (let w = w\<lparr>log := log w @ [Header]\<rparr>
             in case write_raises out (Details p test_mode) of
                  Some raised \<Rightarrow> (Inl (LibraryError raised), w)
                | None \<Rightarrow>
                    (let w = w\<lparr>log := log w @ [Details p test_mode]\<rparr>;
                         final = send_loop w3 out p test_mode (base_nonce p, w)
                                   (enumerate 1 (recipient_addresses p))
                     in case fst final of
                          Some raised \<Rightarrow> (Inl (LibraryError raised), snd (snd final))
                        | None \<Rightarrow> (Inr (), snd (snd final)))))"

subsection \<open>Reading a run\<close>

text \<open>The run over the first \<open>k\<close> recipients.\<close>

definition run_upto ::
  "'n web3 \<Rightarrow> io \<Rightarrow> plan \<Rightarrow> bool \<Rightarrow> int \<times> 'n world \<Rightarrow> json list \<Rightarrow> nat
     \<Rightarrow> string option \<times> int \<times> 'n world" where
  "run_upto w3 out p test_mode st recipients k =
     send_loop w3 out p test_mode st (take k (enumerate 1 recipients))"

text \<open>The value of the nonce counter when the iteration for position \<open>i\<close> (from 1) begins,
  and the transaction that iteration builds with it.\<close>

definition nonce_at ::
  "'n web3 \<Rightarrow> io \<Rightarrow> plan \<Rightarrow> bool \<Rightarrow> int \<times> 'n world \<Rightarrow> json list \<Rightarrow> nat \<Rightarrow> int" where
  "nonce_at w3 out p test_mode st recipients i =
     fst (snd (run_upto w3 out p test_mode st recipients (i - 1)))"

definition transaction_at ::
  "'n web3 \<Rightarrow> io \<Rightarrow> plan \<Rightarrow> bool \<Rightarrow> int \<times> 'n world \<Rightarrow> json list \<Rightarrow> nat
     \<Rightarrow> string + transaction" where
  "transaction_at w3 out p test_mode st recipients i =
     build_transaction w3 p (nonce_at w3 out p test_mode st recipients i) (recipients ! (i - 1))"

text \<open>The lines a run added to the log, and the calls it made.\<close>

definition new_lines :: "'n world \<Rightarrow> 'n world \<Rightarrow> log_line list" where
  "new_lines before after = drop (length (log before)) (log after)"

definition new_calls :: "'n world \<Rightarrow> 'n world \<Rightarrow> net_call list" where
  "new_calls before after = drop (length (calls before)) (calls after)"

definition is_failed :: "log_line \<Rightarrow> bool" where
  "is_failed l = (case l of Failed_to_send i r e \<Rightarrow> True | _ \<Rightarrow> False)"

definition line_index :: "log_line \<Rightarrow> nat option" where
  "line_index l =
     (case l of
        Would_send i r g c t \<Rightarrow> Some i
      | Successfully_sent i r h \<Rightarrow> Some i
      | Failed_to_send i r e \<Rightarrow> Some i
      | _ \<Rightarrow> None)"

definition line_recipient :: "log_line \<Rightarrow> json option" where
  "line_recipient l =
     (case l of
        Would_send i r g c t \<Rightarrow> Some r
      | Successfully_sent i r h \<Rightarrow> Some r
      | Failed_to_send i r e \<Rightarrow> Some r
      | _ \<Rightarrow> None)"

text \<open>A message that both \<^verbatim>\<open>print\<close> and the write to the log accept.\<close>

definition emits :: "io \<Rightarrow> log_line \<Rightarrow> bool" where
  "emits out message = (raised_by out message = None)"

text \<open>The line an iteration adds to the log when the loop goes on after it, and the lines
  of a run of iterations up to the one that ends the loop.\<close>

definition outcome ::
  "'n web3 \<Rightarrow> io \<Rightarrow> plan \<Rightarrow> bool \<Rightarrow> int \<times> 'n world \<Rightarrow> nat \<times> json \<Rightarrow> log_line" where
  "outcome w3 out p test_mode st ir =
     (case fst (attempt w3 p test_mode st ir) of
        Inl e \<Rightarrow> Failed_to_send (fst ir) (snd ir) e
      | Inr log_message \<Rightarrow>
          (case raised_by out log_message of
             None \<Rightarrow> log_message
           | Some e \<Rightarrow> Failed_to_send (fst ir) (snd ir) e))"

fun outcomes ::
  "'n web3 \<Rightarrow> io \<Rightarrow> plan \<Rightarrow> bool \<Rightarrow> int \<times> 'n world \<Rightarrow> (nat \<times> json) list \<Rightarrow> log_line list" where
  "outcomes w3 out p test_mode st [] = []"
| "outcomes w3 out p test_mode st (ir # irs) =
     (case send_one w3 out p test_mode st ir of
        (None, st') \<Rightarrow> outcome w3 out p test_mode st ir # outcomes w3 out p test_mode st' irs
      | (Some raised, st') \<Rightarrow> [])"

declare send_loop.simps(2) [simp del] outcomes.simps(2) [simp del]

definition convertible :: "'n web3 \<Rightarrow> json \<Rightarrow> bool" where
  "convertible w3 recipient =
     (case to_checksum_address w3 recipient of Inl e \<Rightarrow> False | Inr a \<Rightarrow> True)"

text \<open>The line a test-mode iteration writes for one recipient when the console and the
  log accept the message of the body.\<close>

definition test_line :: "'n web3 \<Rightarrow> plan \<Rightarrow> nat \<times> json \<Rightarrow> log_line" where
  "test_line w3 p ir =
     (case to_checksum_address w3 (snd ir) of
        Inl e \<Rightarrow> Failed_to_send (fst ir) (snd ir) e
      | Inr a \<Rightarrow> Would_send (fst ir) (snd ir) (gas_price p) GAS_LIMIT (total_per_transaction p))"

subsection \<open>A small client and directory to run the model on\<close>

text \<open>
  A stand-in for the library and the node.  It converts a string of \<^verbatim>\<open>0x\<close> and 40 hex
  digits to itself and raises on anything else; the node counts the broadcasts and
  rejects the second one.
\<close>

definition stub_checksum :: "json \<Rightarrow> string + string" where
  "stub_checksum a =
     (case a of
        JStr s \<Rightarrow>
          if length s = 42 \<and> take 2 s = text_of ''0x''
             \<and> list_all (\<lambda>c. 0 \<le> c \<and> c < 256 \<and> is_hex_digit (char_of c)) (drop 2 s)
          then Inr (map char_of s) else Inl ''invalid address''
      | _ \<Rightarrow> Inl ''invalid address'')"

definition stub_web3 :: "nat web3" where
  "stub_web3 =
     \<lparr> to_checksum_address = stub_checksum,
       from_key_address = (\<lambda>key. Inr ''0xSENDER''),
       get_transaction_count = (\<lambda>n a. Inr 7),
       get_balance = (\<lambda>n a. Inr 2000000),
       eth_gas_price = (\<lambda>n. Inr 30),
       sign_transaction = (\<lambda>t key. Inr ''raw''),
       send_raw_transaction =
         (\<lambda>n raw. (if n = 1 then Inl ''rejected'' else Inr ''0xHASH'', Suc n)),
       wait_for_transaction_receipt = (\<lambda>n h. (Inr h, n)) \<rparr>"

text \<open>
  A console and a log file in UTF-8: a message is refused when its recipient is a string
  with a surrogate code point in it (55296 to 57343).
\<close>

definition utf8_refuses :: "log_line \<Rightarrow> string option" where
  "utf8_refuses message =
     (case line_recipient message of
        Some (JStr s) \<Rightarrow>
          if list_ex (\<lambda>c. 55296 \<le> c \<and> c \<le> 57343) s
          then Some ''UnicodeEncodeError: surrogates not allowed'' else None
      | _ \<Rightarrow> None)"

definition stub_io :: io where
  "stub_io = \<lparr> print_raises = utf8_refuses, write_raises = utf8_refuses \<rparr>"

definition addr_a :: json where
  "addr_a = JStr (text_of (''0x'' @ replicate 40 (CHR ''a'')))"

definition addr_b :: json where
  "addr_b = JStr (text_of (''0x'' @ replicate 40 (CHR ''b'')))"

definition addr_bad :: json where
  "addr_bad = JStr (text_of ''not-an-address'')"

text \<open>The recipient of the JSON string \<^verbatim>\<open>"\ud800"\<close>.\<close>

definition addr_surrogate :: json where
  "addr_surrogate = JStr [55296]"

definition stub_plan :: plan where
  "stub_plan =
     \<lparr> sender_private_key = ''0x'' @ replicate 64 (CHR ''1''),
       latest_file = ''all_wallets_1.json'',
       recipient_addresses = [addr_a, addr_bad, addr_b],
       amount_wei = 5,
       sender_address = ''0xSENDER'',
       base_nonce = 7,
       sender_balance = 2000000,
       gas_price = 30,
       total_gas = 630000,
       total_per_transaction = 630005,
       total_needed = 1890015 \<rparr>"

definition stub_world :: "nat world" where
  "stub_world = \<lparr> node = 0, calls = [], log = [] \<rparr>"

definition stub_directory :: directory where
  "stub_directory =
     \<lparr> privatekey_txt = Some ('' '' @ replicate 64 (CHR ''1'') @ [CHR 10]),
       wallet_files = [(''all_wallets_0.json'', 10), (''all_wallets_1.json'', 20)],
       load_json =
         (\<lambda>path. if path = ''all_wallets_1.json''
                  then Inr (JArr [JObj [(text_of ''wallet_number'', JInt 1),
                                        (text_of ''public_key'', addr_a)],
                                  JObj [(text_of ''wallet_number'', JInt 2),
                                        (text_of ''public_key'', addr_bad)],
                                  JObj [(text_of ''wallet_number'', JInt 3),
                                        (text_of ''public_key'', addr_b)]])
                  else Inl ''No such file'') \<rparr>"

text \<open>The same directory with the second recipient replaced by \<^verbatim>\<open>"\ud800"\<close>.\<close>

definition surrogate_directory :: directory where
  "surrogate_directory =
     stub_directory
       \<lparr> load_json :=
           (\<lambda>path. if path = ''all_wallets_1.json''
                    then Inr (JArr [JObj [(text_of ''public_key'', addr_a)],
                                    JObj [(text_of ''public_key'', addr_surrogate)],
                                    JObj [(text_of ''public_key'', addr_b)]])
                    else Inl ''No such file'') \<rparr>"

section \<open>Key-material generator: \<^verbatim>\<open>create_wallet.py\<close>\<close>

subsection \<open>Time stamps\<close>

record datetime =
  dt_year :: nat
  dt_month :: nat
  dt_day :: nat
  dt_hour :: nat
  dt_minute :: nat
  dt_second :: nat

definition digit_char :: "nat \<Rightarrow> char" where
  "digit_char d = char_of (48 + d)"

text \<open>\<^verbatim>\<open>str(n)\<close> of a number that is not negative.\<close>

fun str_nat :: "nat \<Rightarrow> string" where
  "str_nat n = (if n < 10 then [digit_char n] else str_nat (n div 10) @ [digit_char (n mod 10)])"

declare str_nat.simps [simp del]

definition zero_pad :: "nat \<Rightarrow> nat \<Rightarrow> string" where
  "zero_pad width n = replicate (width - length (str_nat n)) (CHR ''0'') @ str_nat n"

text \<open>\<^verbatim>\<open>strftime('%Y%m%d_%H%M%S')\<close> and \<^verbatim>\<open>strftime('%Y-%m-%d %H:%M:%S')\<close>\<close>

definition strftime_stamp :: "datetime \<Rightarrow> string" where
  "strftime_stamp t =
     zero_pad 4 (dt_year t) @ zero_pad 2 (dt_month t) @ zero_pad 2 (dt_day t) @ ''_''
     @ zero_pad 2 (dt_hour t) @ zero_pad 2 (dt_minute t) @ zero_pad 2 (dt_second t)"

definition strftime_human :: "datetime \<Rightarrow> string" where
  "strftime_human t =
     zero_pad 4 (dt_year t) @ ''-'' @ zero_pad 2 (dt_month t) @ ''-'' @ zero_pad 2 (dt_day t)
     @ '' '' @ zero_pad 2 (dt_hour t) @ '':'' @ zero_pad 2 (dt_minute t) @ '':''
     @ zero_pad 2 (dt_second t)"

subsection \<open>Libraries, entropy and clock\<close>

type_synonym bytes = "nat list"

record account =
  acct_address :: string
  acct_key :: bytes

text \<open>
  The library calls of \<^verbatim>\<open>generate_wallet\<close>: \<^verbatim>\<open>Mnemonic.to_seed(mnemonic, passphrase)\<close>,
  \<^verbatim>\<open>Account.from_key\<close> (taken to accept every key it is given here) and \<^verbatim>\<open>HexBytes.hex\<close>.
\<close>

record wallet_lib =
  mnemo_to_seed :: "string \<Rightarrow> string \<Rightarrow> bytes"
  from_key :: "bytes \<Rightarrow> account"
  hex :: "bytes \<Rightarrow> string"

text \<open>
  What a run reads from outside: \<open>mnemo_generate k\<close> is the phrase the \<open>k\<close>-th call of
  \<^verbatim>\<open>mnemo.generate(strength=128)\<close> returns, \<open>now k\<close> the \<open>k\<close>-th reading of the clock.
\<close>

record sources =
  mnemo_generate :: "nat \<Rightarrow> string"
  now :: "nat \<Rightarrow> datetime"

subsection \<open>Records and files\<close>

record wallet_data =
  wallet_number :: nat
  public_key :: string
  private_key :: string
  mnemonic :: string
  created_at :: string

text \<open>The dict of lines 90 to 96 as \<^verbatim>\<open>json.dump\<close> writes it.\<close>

definition wallet_json :: "wallet_data \<Rightarrow> json" where
  "wallet_json wd =
     JObj [(text_of ''wallet_number'', JInt (int (wallet_number wd))),
           (text_of ''public_key'', jstr (public_key wd)),
           (text_of ''private_key'', jstr (private_key wd)),
           (text_of ''mnemonic'', jstr (mnemonic wd)),
           (text_of ''created_at'', jstr (created_at wd))]"

text \<open>
  The card document as the pages and cards put into it, in order (the page break that
  \<^verbatim>\<open>create_wallet_card\<close> adds when the page is nearly full depends on the layout and is
  not followed).
\<close>

datatype pdf_item = Add_page | Card wallet_data

definition create_wallet_card :: "pdf_item list \<Rightarrow> wallet_data \<Rightarrow> pdf_item list" where
  "create_wallet_card doc wd = doc @ [Card wd]"

datatype content = Json json | Pdf "pdf_item list"

text \<open>
  The state of a generator run: how often the clock and the entropy source have been
  read, and the files written so far, in the order of writing (a later write to the same
  name replaces the earlier one).
\<close>

record gen_world =
  clock :: nat
  draws :: nat
  files :: "(string \<times> content) list"

definition read_file :: "gen_world \<Rightarrow> string \<Rightarrow> content option" where
  "read_file g name = map_of (rev (files g)) name"

subsection \<open>\<^verbatim>\<open>generate_wallet\<close>\<close>

text \<open>\<open>number\<close> is \<open>None\<close> for the default argument; \<open>None\<close> and 0 are falsy.  The seed is
  computed with the default passphrase, the empty string.\<close>

definition generate_wallet ::
  "wallet_lib \<Rightarrow> sources \<Rightarrow> nat option \<Rightarrow> gen_world \<Rightarrow> (wallet_data \<times> string) \<times> gen_world" where
  "generate_wallet lb src number g =
     (let phrase = mnemo_generate src (draws g);
          seed = mnemo_to_seed lb phrase [];
          account = from_key lb (take 32 seed);
          given = (case number of None \<Rightarrow> None | Some k \<Rightarrow> if k = 0 then None else Some k);
          wd = \<lparr> wallet_number = (case given of None \<Rightarrow> 1 | Some k \<Rightarrow> k),
                 public_key = acct_address account,
                 private_key = hex lb (acct_key account),
                 mnemonic = phrase,
                 created_at = strftime_human (now src (clock g)) \<rparr>;
          timestamp = strftime_stamp (now src (clock g + 1));
          filename = (case given of
                        Some k \<Rightarrow> ''wallet_'' @ timestamp @ ''_'' @ str_nat k @ ''.json''
                      | None \<Rightarrow> ''wallet_'' @ timestamp @ ''.json'')
      in ((wd, filename),
          g\<lparr> clock := clock g + 2,
             draws := draws g + 1,
             files := files g @ [(filename, Json (wallet_json wd))] \<rparr>))"

subsection \<open>\<^verbatim>\<open>generate_multiple_wallets\<close>\<close>

record gen_state =
  all_wallets :: "wallet_data list"
  public_addresses :: "string list"
  pdf :: "pdf_item list"
  world :: gen_world

text \<open>The body of the loop of lines 121 to 137 (the console output is not followed).\<close>

definition wallet_step :: "wallet_lib \<Rightarrow> sources \<Rightarrow> nat \<Rightarrow> gen_state \<Rightarrow> nat \<Rightarrow> gen_state" where
  "wallet_step lb src count s i =
     (let made = generate_wallet lb src (Some i) (world s);
          wd = fst (fst made);
          doc = create_wallet_card (pdf s) wd;
          doc = (if i mod 5 = 0 \<and> i < count then doc @ [Add_page] else doc)
      in \<lparr> all_wallets = all_wallets s @ [wd],
           public_addresses = public_addresses s @ [public_key wd],
           pdf = doc,
           world = snd made \<rparr>)"

fun wallet_loop :: "wallet_lib \<Rightarrow> sources \<Rightarrow> nat \<Rightarrow> gen_state \<Rightarrow> nat list \<Rightarrow> gen_state" where
  "wallet_loop lb src count s [] = s"
| "wallet_loop lb src count s (i # is) = wallet_loop lb src count (wallet_step lb src count s i) is"

definition generate_multiple_wallets :: "wallet_lib \<Rightarrow> sources \<Rightarrow> nat \<Rightarrow> gen_world \<Rightarrow> gen_world" where
  "generate_multiple_wallets lb src count g =
     (let timestamp = strftime_stamp (now src (clock g));
          g = g\<lparr>clock := clock g + 1\<rparr>;
          pdf_filename = ''wallet_cards_'' @ timestamp @ ''.pdf'';
          s = wallet_loop lb src count
                \<lparr> all_wallets = [], public_addresses = [], pdf = [Add_page], world = g \<rparr>
                [1..<count + 1];
          g = world s;
          g = g\<lparr>files := files g @ [(pdf_filename, Pdf (pdf s))]\<rparr>;
          master_filename = ''all_wallets_'' @ timestamp @ ''.json'';
          g = g\<lparr>files := files g
                 @ [(master_filename, Json (JArr (map wallet_json (all_wallets s))))]\<rparr>;
          addresses_filename = ''public_addresses_'' @ timestamp @ ''.json'';
          g = g\<lparr>files := files g
                 @ [(addresses_filename,
                     Json (JObj [(text_of ''addresses'', JArr (map jstr (public_addresses s))),
                                 (text_of ''count'', JInt (int (length (public_addresses s)))),
                                 (text_of ''created_at'', jstr (strftime_human (now src (clock g))))]))],
               clock := clock g + 1\<rparr>
      in g)"

subsection \<open>The command line (lines 161 to 192)\<close>

text \<open>\<^verbatim>\<open>generate_sample_card\<close> renders one card of fixed data and generates nothing.\<close>

definition generate_sample_card :: "sources \<Rightarrow> gen_world \<Rightarrow> gen_world" where
  "generate_sample_card src g =
     (let sample_data =
            \<lparr> wallet_number = 1,
              public_key = ''0x1234567890abcdef1234567890abcdef12345678'',
              private_key = ''0xabcdef1234567890abcdef1234567890abcdef1234567890abcdef1234567890'',
              mnemonic = ''abandon ability able about above absent absorb abstract absurd abuse access accident'',
              created_at = strftime_human (now src (clock g)) \<rparr>
      in g\<lparr> clock := clock g + 1,
            files := files g
              @ [(''sample_wallet_card.pdf'', Pdf (create_wallet_card [Add_page] sample_data))] \<rparr>)"

text \<open>
  The script body: \<open>count\<close> is \<^verbatim>\<open>args.count\<close> (1 when the flag is absent) and \<open>sample\<close> is
  \<^verbatim>\<open>args.sample\<close>.  A count of 1 is served by \<^verbatim>\<open>generate_wallet()\<close> and one card; only a
  count of 2 or more reaches \<^verbatim>\<open>generate_multiple_wallets\<close>.
\<close>

definition create_wallet_main ::
  "wallet_lib \<Rightarrow> sources \<Rightarrow> int \<Rightarrow> bool \<Rightarrow> gen_world \<Rightarrow> gen_world" where
  "create_wallet_main lb src count sample g =
     (if sample then generate_sample_card src g
      else if count < 1 then g
      else if count = 1 then
        (let made = generate_wallet lb src None g;
             wd = fst (fst made);
             g = snd made;
             timestamp = strftime_stamp (now src (clock g));
             pdf_filename = ''wallet_card_'' @ timestamp @ ''.pdf''
         in g\<lparr> clock := clock g + 1,
               files := files g @ [(pdf_filename, Pdf (create_wallet_card [Add_page] wd))] \<rparr>)
      else generate_multiple_wallets lb src (nat count) g)"

subsection \<open>Reading a generator run\<close>

text \<open>The files a run wrote, in order.\<close>

definition written :: "gen_world \<Rightarrow> gen_world \<Rightarrow> (string \<times> content) list" where
  "written before after = drop (length (files before)) (files after)"

text \<open>
  The kinds of file of section 6 of the specification: a key record is an object with the
  five fields of a record in their order, an aggregate is an array of key records, an
  addresses file is an object of an array of strings, a count and a time.
\<close>

datatype file_kind = Key_record | Aggregate nat | Addresses nat int | Cards | Other

definition is_key_record :: "json \<Rightarrow> bool" where
  "is_key_record j =
     (case j of
        JObj kvs \<Rightarrow>
          map fst kvs = map text_of [''wallet_number'', ''public_key'', ''private_key'',
                                      ''mnemonic'', ''created_at'']
      | _ \<Rightarrow> False)"

definition is_string :: "json \<Rightarrow> bool" where
  "is_string j = (case j of JStr s \<Rightarrow> True | _ \<Rightarrow> False)"

definition kind_of :: "content \<Rightarrow> file_kind" where
  "kind_of c =
     (case c of
        Pdf doc \<Rightarrow> Cards
      | Json (JArr items) \<Rightarrow> if list_all is_key_record items then Aggregate (length items) else Other
      | Json (JObj kvs) \<Rightarrow>
          if is_key_record (JObj kvs) then Key_record
          else (case kvs of
                  [(k1, JArr addrs), (k2, JInt n), (k3, JStr t)] \<Rightarrow>
                    if k1 = text_of ''addresses'' \<and> k2 = text_of ''count'' \<and> k3 = text_of ''created_at''
                       \<and> list_all is_string addrs
                    then Addresses (length addrs) n else Other
                | _ \<Rightarrow> Other)
      | _ \<Rightarrow> Other)"

text \<open>The addresses the distributor extracts from an aggregate file, and the list an
  addresses file stores.\<close>

definition extracted_addresses :: "content option \<Rightarrow> json list option" where
  "extracted_addresses f =
     (case f of
        Some (Json aggregate) \<Rightarrow>
          (case recipients_of aggregate of Inr xs \<Rightarrow> Some xs | Inl e \<Rightarrow> None)
      | _ \<Rightarrow> None)"

definition stored_addresses :: "content option \<Rightarrow> json list option" where
  "stored_addresses f =
     (case f of
        Some (Json (JObj kvs)) \<Rightarrow>
          (case map_of kvs (text_of ''addresses'') of Some (JArr xs) \<Rightarrow> Some xs | _ \<Rightarrow> None)
      | _ \<Rightarrow> None)"

text \<open>The number a decimal string stands for, and the part of a file name between its last
  underscore and its five-character extension.\<close>

definition nat_of_str :: "string \<Rightarrow> nat" where
  "nat_of_str s = foldl (\<lambda>a c. 10 * a + (of_char c - 48)) 0 s"

definition name_number :: "string \<Rightarrow> string" where
  "name_number name = rev (takeWhile (\<lambda>c. c \<noteq> CHR ''_'') (drop 5 (rev name)))"

text \<open>What the calls of \<^verbatim>\<open>generate_wallet\<close> in the loop return, call by call.\<close>

fun loop_made :: "wallet_lib \<Rightarrow> sources \<Rightarrow> gen_world \<Rightarrow> nat list \<Rightarrow> (wallet_data \<times> string) list" where
  "loop_made lb src g [] = []"
| "loop_made lb src g (i # is) =
     fst (generate_wallet lb src (Some i) g)
       # loop_made lb src (snd (generate_wallet lb src (Some i) g)) is"

definition record_file :: "wallet_data \<times> string \<Rightarrow> string \<times> content" where
  "record_file made = (snd made, Json (wallet_json (fst made)))"

subsection \<open>A small library and sources to run the generator on\<close>

definition stub_lib :: wallet_lib where
  "stub_lib =
     \<lparr> mnemo_to_seed =
         (\<lambda>phrase passphrase. take 64 (map of_char (phrase @ passphrase) @ replicate 64 0)),
       from_key = (\<lambda>k. \<lparr> acct_address = ''0x'' @ concat (map str_nat (take 4 (drop 14 k))), acct_key = k \<rparr>),
       hex = (\<lambda>k. ''0x'' @ concat (map (\<lambda>b. zero_pad 3 b) k)) \<rparr>"

definition stub_sources :: sources where
  "stub_sources =
     \<lparr> mnemo_generate = (\<lambda>k. ''abandon ability '' @ str_nat k),
       now = (\<lambda>k. \<lparr> dt_year = 2024, dt_month = 5, dt_day = 6, dt_hour = 7, dt_minute = 8,
                     dt_second = k \<rparr>) \<rparr>"

definition stub_gen_world :: gen_world where
  "stub_gen_world = \<lparr> clock = 0, draws = 0, files = [] \<rparr>"

section \<open>Properties of the distributor\<close>

lemma text_of_eq: "(text_of a = text_of b) = (a = b)"
  by (simp add: text_of_def inj_map_eq_map inj_def)

lemma concat_split_ws:
  "concat (split_ws cur s) = cur @ filter (\<lambda>c. \<not> isspace c) s"
  by (induction cur s rule: split_ws.induct) auto

lemma join_split_filter: "join_split s = remove_whitespace s"
  by (simp add: join_split_def remove_whitespace_def concat_split_ws)

lemma filter_dropWhile_same: "filter (\<lambda>c. \<not> P c) (dropWhile P s) = filter (\<lambda>c. \<not> P c) s"
  by (induction s) auto

lemma remove_whitespace_strip: "remove_whitespace (strip s) = remove_whitespace s"
proof -
  have "remove_whitespace (strip s)
      = rev (filter (\<lambda>c. \<not> isspace c) (dropWhile isspace (rev (dropWhile isspace s))))"
    by (simp add: remove_whitespace_def strip_def rev_filter)
  also have "\<dots> = rev (filter (\<lambda>c. \<not> isspace c) (rev (dropWhile isspace s)))"
    by (simp only: filter_dropWhile_same)
  also have "\<dots> = filter (\<lambda>c. \<not> isspace c) (dropWhile isspace s)"
    by (simp add: rev_filter)
  also have "\<dots> = remove_whitespace s"
    by (simp add: remove_whitespace_def filter_dropWhile_same)
  finally show ?thesis .
qed

subsection \<open>The send loop, one iteration at a time\<close>

lemma attempt_log: "log (snd (attempt w3 p t st ir)) = log (snd st)"
  by (simp add: attempt_def Let_def split: sum.splits)

lemma attempt_Inr:
  "fst (attempt w3 p t st ir) = Inr m \<Longrightarrow>
     \<not> is_failed m \<and> line_index m = Some (fst ir) \<and> line_recipient m = Some (snd ir)"
  by (auto simp: attempt_def Let_def is_failed_def line_index_def line_recipient_def
      split: sum.splits if_splits)

lemma attempt_test_mode:
  "attempt w3 p True st ir =
     (case to_checksum_address w3 (snd ir) of
        Inl e \<Rightarrow> (Inl e, snd st)
      | Inr a \<Rightarrow> (Inr (Would_send (fst ir) (snd ir) (gas_price p) GAS_LIMIT
                         (total_per_transaction p)), snd st))"
  by (simp add: attempt_def build_transaction_def Let_def split: sum.splits)

lemma attempt_signs_built_transaction:
  "build_transaction w3 p (fst st) (snd ir) = Inr tx \<Longrightarrow>
     take 1 (new_calls (snd st) (snd (attempt w3 p False st ir))) = [Sign tx]"
  by (simp add: attempt_def Let_def new_calls_def split: sum.splits)

lemma emit_accepts: "emits out m \<Longrightarrow> emit out lg m = Inr (lg @ [m])"
  by (simp add: emit_def emits_def)

lemma send_one_world:
  "snd (snd (send_one w3 out p t st ir)) =
     (case fst (send_one w3 out p t st ir) of
        None \<Rightarrow> (snd (attempt w3 p t st ir))\<lparr>log := log (snd st) @ [outcome w3 out p t st ir]\<rparr>
      | Some raised \<Rightarrow> snd (attempt w3 p t st ir))"
  by (simp add: send_one_def outcome_def emit_def Let_def attempt_log
      split: sum.splits option.splits)

lemma outcome_index: "line_index (outcome w3 out p t st ir) = Some (fst ir)"
proof (cases "fst (attempt w3 p t st ir)")
  case (Inl e)
  then show ?thesis by (simp add: outcome_def line_index_def)
next
  case (Inr m)
  then have "line_index m = Some (fst ir)" by (simp add: attempt_Inr)
  with Inr show ?thesis
    by (cases "raised_by out m") (simp_all add: outcome_def line_index_def)
qed

lemma outcome_recipient: "line_recipient (outcome w3 out p t st ir) = Some (snd ir)"
proof (cases "fst (attempt w3 p t st ir)")
  case (Inl e)
  then show ?thesis by (simp add: outcome_def line_recipient_def)
next
  case (Inr m)
  then have "line_recipient m = Some (snd ir)" by (simp add: attempt_Inr)
  with Inr show ?thesis
    by (cases "raised_by out m") (simp_all add: outcome_def line_recipient_def)
qed

lemma send_one_nonce:
  "fst (snd (send_one w3 out p t st ir)) =
     fst st + (case fst (send_one w3 out p t st ir) of
                 None \<Rightarrow> if is_failed (outcome w3 out p t st ir) then 0 else 1
               | Some raised \<Rightarrow> 0)"
  by (auto simp: send_one_def outcome_def emit_def Let_def is_failed_def
      split: sum.splits option.splits dest: attempt_Inr)

lemma send_one_log:
  "log (snd (snd (send_one w3 out p t st ir))) =
     log (snd st) @ (case fst (send_one w3 out p t st ir) of
                       None \<Rightarrow> [outcome w3 out p t st ir] | Some raised \<Rightarrow> [])"
  by (simp add: send_one_world attempt_log split: option.splits)

lemma send_one_calls:
  "calls (snd (snd (send_one w3 out p t st ir))) = calls (snd (attempt w3 p t st ir))"
  "node (snd (snd (send_one w3 out p t st ir))) = node (snd (attempt w3 p t st ir))"
  by (simp_all add: send_one_world split: option.splits)

lemma send_loop_Cons_None:
  "fst (send_one w3 out p t st ir) = None \<Longrightarrow>
     send_loop w3 out p t st (ir # irs) = send_loop w3 out p t (snd (send_one w3 out p t st ir)) irs"
  by (cases "send_one w3 out p t st ir") (simp add: send_loop.simps(2) outcomes.simps(2))

lemma send_loop_Cons_Some:
  "fst (send_one w3 out p t st ir) = Some raised \<Longrightarrow>
     send_loop w3 out p t st (ir # irs) = send_one w3 out p t st ir"
  by (cases "send_one w3 out p t st ir") (simp add: send_loop.simps(2) outcomes.simps(2))

lemma outcomes_Cons_None:
  "fst (send_one w3 out p t st ir) = None \<Longrightarrow>
     outcomes w3 out p t st (ir # irs)
       = outcome w3 out p t st ir # outcomes w3 out p t (snd (send_one w3 out p t st ir)) irs"
  by (cases "send_one w3 out p t st ir") (simp add: send_loop.simps(2) outcomes.simps(2))

lemma outcomes_Cons_Some:
  "fst (send_one w3 out p t st ir) = Some raised \<Longrightarrow> outcomes w3 out p t st (ir # irs) = []"
  by (cases "send_one w3 out p t st ir") (simp add: send_loop.simps(2) outcomes.simps(2))

lemma send_loop_append:
  "send_loop w3 out p t st (xs @ ys) =
     (case fst (send_loop w3 out p t st xs) of
        None \<Rightarrow> send_loop w3 out p t (snd (send_loop w3 out p t st xs)) ys
      | Some raised \<Rightarrow> send_loop w3 out p t st xs)"
proof (induction xs arbitrary: st)
  case Nil
  then show ?case by simp
next
  case (Cons ir xs)
  show ?case
  proof (cases "fst (send_one w3 out p t st ir)")
    case None
    then have "send_loop w3 out p t st (ir # xs @ ys)
        = send_loop w3 out p t (snd (send_one w3 out p t st ir)) (xs @ ys)"
      and "send_loop w3 out p t st (ir # xs)
        = send_loop w3 out p t (snd (send_one w3 out p t st ir)) xs"
      by (simp_all add: send_loop_Cons_None)
    then show ?thesis
      unfolding append_Cons by (simp only: Cons.IH)
  next
    case (Some raised)
    then have "send_loop w3 out p t st (ir # xs @ ys) = send_one w3 out p t st ir"
      and "send_loop w3 out p t st (ir # xs) = send_one w3 out p t st ir"
      by (simp_all add: send_loop_Cons_Some)
    with Some show ?thesis
      unfolding append_Cons by simp
  qed
qed

lemma send_loop_log:
  "log (snd (snd (send_loop w3 out p t st irs))) = log (snd st) @ outcomes w3 out p t st irs"
proof (induction irs arbitrary: st)
  case Nil
  then show ?case by simp
next
  case (Cons ir irs)
  show ?case
  proof (cases "fst (send_one w3 out p t st ir)")
    case None
    then show ?thesis
      using Cons.IH [of "snd (send_one w3 out p t st ir)"]
      by (simp add: send_loop_Cons_None outcomes_Cons_None send_one_log)
  next
    case (Some raised)
    then show ?thesis
      by (simp add: send_loop_Cons_Some outcomes_Cons_Some send_one_log)
  qed
qed

lemma send_loop_nonce:
  "fst (snd (send_loop w3 out p t st irs))
     = fst st + int (length (filter (\<lambda>l. \<not> is_failed l) (outcomes w3 out p t st irs)))"
proof (induction irs arbitrary: st)
  case Nil
  then show ?case by simp
next
  case (Cons ir irs)
  show ?case
  proof (cases "fst (send_one w3 out p t st ir)")
    case None
    then show ?thesis
      using Cons.IH [of "snd (send_one w3 out p t st ir)"]
      by (simp add: send_loop_Cons_None outcomes_Cons_None send_one_nonce)
  next
    case (Some raised)
    then show ?thesis
      by (simp add: send_loop_Cons_Some outcomes_Cons_Some send_one_nonce)
  qed
qed

lemma outcomes_complete:
  "fst (send_loop w3 out p t st irs) = None \<Longrightarrow>
     length (outcomes w3 out p t st irs) = length irs
   \<and> map line_index (outcomes w3 out p t st irs) = map (\<lambda>ir. Some (fst ir)) irs
   \<and> map line_recipient (outcomes w3 out p t st irs) = map (\<lambda>ir. Some (snd ir)) irs"
proof (induction irs arbitrary: st)
  case Nil
  then show ?case by simp
next
  case (Cons ir irs)
  show ?case
  proof (cases "fst (send_one w3 out p t st ir)")
    case None
    with Cons.prems have "fst (send_loop w3 out p t (snd (send_one w3 out p t st ir)) irs) = None"
      by (simp add: send_loop_Cons_None)
    then show ?thesis
      using Cons.IH [of "snd (send_one w3 out p t st ir)"] None
      by (simp add: outcomes_Cons_None outcome_index outcome_recipient)
  next
    case (Some raised)
    with Cons.prems show ?thesis
      by (simp add: send_loop_Cons_Some)
  qed
qed

lemma new_lines_send_loop:
  "new_lines w (snd (snd (send_loop w3 out p t (n, w) irs))) = outcomes w3 out p t (n, w) irs"
  by (simp add: new_lines_def send_loop_log)

lemma send_one_test_mode_quiet:
  "calls (snd (snd (send_one w3 out p True st ir))) = calls (snd st)
   \<and> node (snd (snd (send_one w3 out p True st ir))) = node (snd st)"
  by (simp add: send_one_calls attempt_test_mode split: sum.splits)

lemma send_loop_test_mode_quiet:
  "calls (snd (snd (send_loop w3 out p True st irs))) = calls (snd st)
   \<and> node (snd (snd (send_loop w3 out p True st irs))) = node (snd st)"
proof (induction irs arbitrary: st)
  case Nil
  then show ?case by simp
next
  case (Cons ir irs)
  show ?case
  proof (cases "fst (send_one w3 out p True st ir)")
    case None
    then show ?thesis
      using Cons.IH [of "snd (send_one w3 out p True st ir)"]
      by (simp add: send_loop_Cons_None send_one_test_mode_quiet)
  next
    case (Some raised)
    then show ?thesis
      by (simp add: send_loop_Cons_Some send_one_test_mode_quiet)
  qed
qed

lemma send_one_test_mode:
  "emits out (test_line w3 p ir) \<Longrightarrow>
     send_one w3 out p True st ir =
       (None, fst st + (if convertible w3 (snd ir) then 1 else 0),
        (snd st)\<lparr>log := log (snd st) @ [test_line w3 p ir]\<rparr>)"
proof (cases "to_checksum_address w3 (snd ir)")
  case (Inl e)
  assume "emits out (test_line w3 p ir)"
  with Inl have "emits out (Failed_to_send (fst ir) (snd ir) e)"
    by (simp add: test_line_def)
  with Inl show ?thesis
    by (simp add: send_one_def Let_def attempt_test_mode convertible_def test_line_def
        emit_accepts)
next
  case (Inr a)
  assume "emits out (test_line w3 p ir)"
  with Inr have "emits out (Would_send (fst ir) (snd ir) (gas_price p) GAS_LIMIT
                   (total_per_transaction p))"
    by (simp add: test_line_def)
  with Inr show ?thesis
    by (simp add: send_one_def Let_def attempt_test_mode convertible_def test_line_def
        emit_accepts)
qed

lemma send_loop_test_mode:
  "list_all (\<lambda>ir. emits out (test_line w3 p ir)) irs \<Longrightarrow>
     send_loop w3 out p True (n, w) irs =
       (None, n + int (length (filter (\<lambda>ir. convertible w3 (snd ir)) irs)),
        w\<lparr>log := log w @ map (test_line w3 p) irs\<rparr>)"
proof (induction irs arbitrary: n w)
  case Nil
  then show ?case by simp
next
  case (Cons ir irs)
  from Cons.prems have one: "emits out (test_line w3 p ir)"
    and rest: "list_all (\<lambda>ir. emits out (test_line w3 p ir)) irs"
    by simp_all
  note step = send_one_test_mode [OF one, of "(n, w)"]
  then have "send_loop w3 out p True (n, w) (ir # irs)
      = send_loop w3 out p True (snd (send_one w3 out p True (n, w) ir)) irs"
    by (simp add: send_loop_Cons_None)
  then show ?case
    unfolding step by (simp add: Cons.IH [OF rest])
qed

lemma length_filter_enumerate:
  "length (filter (\<lambda>ir. P (snd ir)) (enumerate k rs)) = length (filter P rs)"
proof -
  have "length (filter P (map snd (enumerate k rs))) = length (filter (P \<circ> snd) (enumerate k rs))"
    by (simp only: filter_map length_map)
  then show ?thesis by (simp add: comp_def)
qed

lemma enumerate_indices:
  "map (\<lambda>ir. Some (fst ir)) (enumerate 1 rs) = map Some [1..<Suc (length rs)]"
proof -
  have "map (\<lambda>ir. Some (fst ir)) (enumerate 1 rs) = map (Some \<circ> fst) (enumerate 1 rs)"
    by (simp add: comp_def)
  also have "\<dots> = map Some (map fst (enumerate 1 rs))"
    by (simp only: map_map)
  also have "\<dots> = map Some [1..<1 + length rs]"
    by (simp only: map_fst_enumerate)
  finally show ?thesis
    by (simp only: plus_1_eq_Suc)
qed

lemma enumerate_items: "map (\<lambda>ir. Some (snd ir)) (enumerate k rs) = map Some rs"
proof -
  have "map (\<lambda>ir. Some (snd ir)) (enumerate k rs) = map (Some \<circ> snd) (enumerate k rs)"
    by (simp add: comp_def)
  also have "\<dots> = map Some (map snd (enumerate k rs))"
    by (simp only: map_map)
  finally show ?thesis
    by (simp only: map_snd_enumerate)
qed

lemma snd_in_enumerate: "ir \<in> set (enumerate k rs) \<Longrightarrow> snd ir \<in> set rs"
proof -
  assume "ir \<in> set (enumerate k rs)"
  then have "snd ir \<in> set (map snd (enumerate k rs))"
    by (simp only: set_map) (rule imageI)
  then show ?thesis
    by (simp only: map_snd_enumerate)
qed

lemma take_enumerate_step:
  "1 \<le> i \<Longrightarrow> i \<le> length rs \<Longrightarrow>
     take i (enumerate 1 rs) = take (i - 1) (enumerate 1 rs) @ [(i, rs ! (i - 1))]"
proof -
  assume a: "1 \<le> i" "i \<le> length rs"
  then have "i - 1 < length (enumerate 1 rs)" by simp
  then have "take (Suc (i - 1)) (enumerate 1 rs)
      = take (i - 1) (enumerate 1 rs) @ [enumerate 1 rs ! (i - 1)]"
    by (rule take_Suc_conv_app_nth)
  moreover from a have "enumerate 1 rs ! (i - 1) = (i, rs ! (i - 1))"
    by (simp add: nth_enumerate_eq)
  ultimately show ?thesis using a by simp
qed

lemma run_upto_step:
  assumes "1 \<le> i" "i \<le> length rs" "fst (run_upto w3 out p t st rs (i - 1)) = None"
  shows "run_upto w3 out p t st rs i
           = send_one w3 out p t (snd (run_upto w3 out p t st rs (i - 1))) (i, rs ! (i - 1))"
proof -
  have "run_upto w3 out p t st rs i
      = send_loop w3 out p t st (take (i - 1) (enumerate 1 rs) @ [(i, rs ! (i - 1))])"
    using assms(1,2) by (simp only: run_upto_def take_enumerate_step)
  also have "\<dots> = send_loop w3 out p t (snd (run_upto w3 out p t st rs (i - 1))) [(i, rs ! (i - 1))]"
    using assms(3) by (simp add: send_loop_append run_upto_def)
  also have "\<dots> = send_one w3 out p t (snd (run_upto w3 out p t st rs (i - 1))) (i, rs ! (i - 1))"
  proof (cases "fst (send_one w3 out p t (snd (run_upto w3 out p t st rs (i - 1))) (i, rs ! (i - 1)))")
    case None
    then show ?thesis
      by (simp add: send_loop_Cons_None) (metis prod.collapse)
  next
    case (Some raised)
    then show ?thesis
      by (simp add: send_loop_Cons_Some)
  qed
  finally show ?thesis .
qed

lemma list_all_take: "list_all P xs \<Longrightarrow> list_all P (take k xs)"
  by (auto simp: list_all_iff dest: in_set_takeD)

text \<open>When the error message can be printed and written, a failed body is logged and the
  loop goes on with the nonce it had.\<close>

lemma handled_failure_is_logged:
  "fst (attempt w3 p t st ir) = Inl e \<Longrightarrow> emits out (Failed_to_send (fst ir) (snd ir) e) \<Longrightarrow>
     send_one w3 out p t st ir =
       (None, fst st,
        (snd (attempt w3 p t st ir))\<lparr>log := log (snd st) @ [Failed_to_send (fst ir) (snd ir) e]\<rparr>)"
  by (simp add: send_one_def Let_def emit_accepts attempt_log)

subsection \<open>Nonce sequencing\<close>

text \<open>
  C1 (as the code has it).  The nonce counter at position \<open>i\<close> is the base nonce plus the
  number of earlier iterations that completed without an error (the lines of the log that
  are not failure lines), the transaction built at position \<open>i\<close> carries that value as its
  nonce, and in a real run it is the transaction handed to the signing call of that
  iteration.  So the nonce is \<open>base + (i - 1)\<close> when the loop reaches position \<open>i\<close> and none
  of the earlier iterations failed.
\<close>

theorem nonce_counts_completed_iterations:
  "nonce_at web out p t (n, w) rs i
     = n + int (length (filter (\<lambda>l. \<not> is_failed l)
                 (new_lines w (snd (snd (run_upto web out p t (n, w) rs (i - 1)))))))
   \<and> (transaction_at web out p t (n, w) rs i = Inr tx
      \<longrightarrow> tx_nonce tx = nonce_at web out p t (n, w) rs i)
   \<and> (1 \<le> i \<and> i \<le> length rs
        \<and> fst (run_upto web out p False (n, w) rs (i - 1)) = None
        \<and> transaction_at web out p False (n, w) rs i = Inr tx
      \<longrightarrow> take 1 (new_calls (snd (snd (run_upto web out p False (n, w) rs (i - 1))))
                          (snd (snd (run_upto web out p False (n, w) rs i)))) = [Sign tx])
   \<and> (1 \<le> i \<and> i \<le> Suc (length rs)
        \<and> fst (run_upto web out p t (n, w) rs (i - 1)) = None
        \<and> \<not> list_ex is_failed
              (new_lines w (snd (snd (run_upto web out p t (n, w) rs (i - 1)))))
      \<longrightarrow> nonce_at web out p t (n, w) rs i = n + int (i - 1))"
proof -
  let ?irs = "take (i - 1) (enumerate 1 rs)"
  let ?new = "new_lines w (snd (snd (run_upto web out p t (n, w) rs (i - 1))))"
  have new: "?new = outcomes web out p t (n, w) ?irs"
    by (simp add: run_upto_def new_lines_send_loop)
  have a: "nonce_at web out p t (n, w) rs i
     = n + int (length (filter (\<lambda>l. \<not> is_failed l) ?new))"
    unfolding new by (simp add: nonce_at_def run_upto_def send_loop_nonce)
  have b: "tx_nonce tx = nonce_at web out p t (n, w) rs i"
    if "transaction_at web out p t (n, w) rs i = Inr tx"
    using that by (auto simp: transaction_at_def build_transaction_def split: sum.splits)
  have c: "take 1 (new_calls (snd (snd (run_upto web out p False (n, w) rs (i - 1))))
                          (snd (snd (run_upto web out p False (n, w) rs i)))) = [Sign tx]"
    if "1 \<le> i" "i \<le> length rs" "fst (run_upto web out p False (n, w) rs (i - 1)) = None"
      "transaction_at web out p False (n, w) rs i = Inr tx"
  proof -
    let ?st = "snd (run_upto web out p False (n, w) rs (i - 1))"
    have step: "run_upto web out p False (n, w) rs i
        = send_one web out p False ?st (i, rs ! (i - 1))"
      using that(1,2,3) by (rule run_upto_step)
    from that(4) have "build_transaction web p (fst ?st) (snd (i, rs ! (i - 1))) = Inr tx"
      by (simp add: transaction_at_def nonce_at_def)
    then have "take 1 (new_calls (snd ?st) (snd (attempt web p False ?st (i, rs ! (i - 1)))))
        = [Sign tx]"
      by (rule attempt_signs_built_transaction)
    then show ?thesis
      unfolding step by (simp add: new_calls_def send_one_calls)
  qed
  have d: "nonce_at web out p t (n, w) rs i = n + int (i - 1)"
    if "1 \<le> i" "i \<le> Suc (length rs)" "fst (run_upto web out p t (n, w) rs (i - 1)) = None"
      "\<not> list_ex is_failed ?new"
  proof -
    from that(4) have "filter (\<lambda>l. \<not> is_failed l) ?new = ?new"
      by (simp add: list_ex_iff)
    moreover from that(3) have "length (outcomes web out p t (n, w) ?irs) = length ?irs"
      by (simp add: run_upto_def outcomes_complete)
    then have "length ?new = i - 1"
      unfolding new using that(2) by simp
    ultimately show ?thesis using a by simp
  qed
  from a b c d show ?thesis by blast
qed

text \<open>
  The theorem at two recipients that are both sent to: the second transaction is built and
  signed with the base nonce plus one.
\<close>

theorem nonce_counts_completed_iterations_witness:
  "(1::nat) \<le> 2 \<and> 2 \<le> length [addr_a, addr_b]
   \<and> fst (run_upto stub_web3 stub_io stub_plan False (7, stub_world) [addr_a, addr_b] (2 - 1)) = None
   \<and> \<not> list_ex is_failed (new_lines stub_world
          (snd (snd (run_upto stub_web3 stub_io stub_plan False (7, stub_world) [addr_a, addr_b] (2 - 1)))))
   \<and> transaction_at stub_web3 stub_io stub_plan False (7, stub_world) [addr_a, addr_b] 2
       = Inr \<lparr> tx_from = ''0xSENDER'', tx_to = ''0x'' @ replicate 40 (CHR ''b''), tx_value = 5,
               tx_nonce = 8, tx_gas = 21000, tx_gasPrice = 30, tx_chainId = 137 \<rparr>
   \<and> nonce_at stub_web3 stub_io stub_plan False (7, stub_world) [addr_a, addr_b] 2 = 7 + int (2 - 1)
   \<and> take 1 (new_calls
         (snd (snd (run_upto stub_web3 stub_io stub_plan False (7, stub_world) [addr_a, addr_b] (2 - 1))))
         (snd (snd (run_upto stub_web3 stub_io stub_plan False (7, stub_world) [addr_a, addr_b] 2))))
       = [Sign \<lparr> tx_from = ''0xSENDER'', tx_to = ''0x'' @ replicate 40 (CHR ''b''), tx_value = 5,
                 tx_nonce = 8, tx_gas = 21000, tx_gasPrice = 30, tx_chainId = 137 \<rparr>]"
proof -
  have h: "(1::nat) \<le> 2 \<and> 2 \<le> length [addr_a, addr_b]
   \<and> fst (run_upto stub_web3 stub_io stub_plan False (7, stub_world) [addr_a, addr_b] (2 - 1)) = None
   \<and> \<not> list_ex is_failed (new_lines stub_world
          (snd (snd (run_upto stub_web3 stub_io stub_plan False (7, stub_world) [addr_a, addr_b] (2 - 1)))))
   \<and> transaction_at stub_web3 stub_io stub_plan False (7, stub_world) [addr_a, addr_b] 2
       = Inr \<lparr> tx_from = ''0xSENDER'', tx_to = ''0x'' @ replicate 40 (CHR ''b''), tx_value = 5,
               tx_nonce = 8, tx_gas = 21000, tx_gasPrice = 30, tx_chainId = 137 \<rparr>"
    by code_simp
  from nonce_counts_completed_iterations
    [where web = stub_web3 and out = stub_io and p = stub_plan and t = False and n = 7
       and w = stub_world and rs = "[addr_a, addr_b]" and i = 2
       and tx = "\<lparr> tx_from = ''0xSENDER'', tx_to = ''0x'' @ replicate 40 (CHR ''b''), tx_value = 5,
               tx_nonce = 8, tx_gas = 21000, tx_gasPrice = 30, tx_chainId = 137 \<rparr>"] h
  show ?thesis by simp
qed

text \<open>
  C1 (as stated) fails: the first recipient cannot be converted, the iteration is logged as
  failed, and the transaction for position 2 is built with the base nonce 7, not 8.
\<close>

theorem nonce_kept_after_failed_iteration:
  "new_lines stub_world
      (snd (snd (run_upto stub_web3 stub_io stub_plan False (7, stub_world) [addr_bad, addr_a] 1)))
     = [Failed_to_send 1 addr_bad ''invalid address'']
   \<and> transaction_at stub_web3 stub_io stub_plan False (7, stub_world) [addr_bad, addr_a] 2
       = Inr \<lparr> tx_from = ''0xSENDER'', tx_to = ''0x'' @ replicate 40 (CHR ''a''), tx_value = 5,
               tx_nonce = 7, tx_gas = 21000, tx_gasPrice = 30, tx_chainId = 137 \<rparr>
   \<and> (7::int) \<noteq> 7 + int (2 - 1)"
  by code_simp

subsection \<open>Preflight\<close>

text \<open>
  C2.  When the plan can be made, the total is the number of recipients times the amount
  plus gas price times gas limit, and a balance below the total ends the run with
  \<open>InsufficientBalance\<close> in the world it started in: no call was made and no line was
  logged.
\<close>

theorem preflight_insufficient_balance:
  "make_plan web d amount (node w) = Inr p \<Longrightarrow>
     total_needed p = int (length (recipient_addresses p)) * (amount + gas_price p * GAS_LIMIT)
   \<and> (sender_balance p < total_needed p
      \<longrightarrow> distribute_pol web out d test_mode amount w
            = (Inl (InsufficientBalance (total_needed p) (sender_balance p)), w))"
  by (auto simp: distribute_pol_def make_plan_def and_then_def split: sum.splits)

text \<open>
  The theorem at a balance of 2000000 and three recipients that cost 730000 each.
\<close>

theorem preflight_insufficient_balance_witness:
  "make_plan stub_web3 stub_directory 100000 (node stub_world)
     = Inr (stub_plan\<lparr>amount_wei := 100000, total_per_transaction := 730000,
                       total_needed := 2190000\<rparr>)
   \<and> (2000000::int) < 2190000
   \<and> distribute_pol stub_web3 stub_io stub_directory False 100000 stub_world
       = (Inl (InsufficientBalance 2190000 2000000), stub_world)"
proof -
  have h: "make_plan stub_web3 stub_directory 100000 (node stub_world)
     = Inr (stub_plan\<lparr>amount_wei := 100000, total_per_transaction := 730000,
                       total_needed := 2190000\<rparr>)"
    by code_simp
  from preflight_insufficient_balance [OF h, of stub_io False] h show ?thesis
    by (simp add: stub_plan_def)
qed

subsection \<open>Test mode\<close>

text \<open>
  C4 (as the code has it).  In test mode the loop signs nothing, broadcasts nothing and
  waits for no receipt, and it leaves the node as it is.  When the line of every recipient
  can be printed and written, the loop runs to its end, logs one line per recipient, and
  the nonce counter grows by one for each recipient whose address converts; so position
  \<open>i\<close> gets \<open>base + (i - 1)\<close> when moreover every address converts.
\<close>

theorem test_mode_makes_no_network_call:
  "calls (snd (snd (send_loop web out p True (n, w) (enumerate 1 rs)))) = calls w
   \<and> node (snd (snd (send_loop web out p True (n, w) (enumerate 1 rs)))) = node w
   \<and> (list_all (\<lambda>ir. emits out (test_line web p ir)) (enumerate 1 rs)
      \<longrightarrow> fst (send_loop web out p True (n, w) (enumerate 1 rs)) = None
        \<and> length (new_lines w (snd (snd (send_loop web out p True (n, w) (enumerate 1 rs)))))
            = length rs
        \<and> map line_recipient
              (new_lines w (snd (snd (send_loop web out p True (n, w) (enumerate 1 rs)))))
            = map Some rs
        \<and> fst (snd (send_loop web out p True (n, w) (enumerate 1 rs)))
            = n + int (length (filter (convertible web) rs)))
   \<and> (list_all (\<lambda>ir. emits out (test_line web p ir)) (enumerate 1 rs)
        \<and> list_all (convertible web) rs \<and> 1 \<le> i \<and> i \<le> Suc (length rs)
      \<longrightarrow> nonce_at web out p True (n, w) rs i = n + int (i - 1))"
proof -
  let ?irs = "enumerate 1 rs"
  let ?ok = "list_all (\<lambda>ir. emits out (test_line web p ir)) ?irs"
  have a: "calls (snd (snd (send_loop web out p True (n, w) ?irs))) = calls w
      \<and> node (snd (snd (send_loop web out p True (n, w) ?irs))) = node w"
    using send_loop_test_mode_quiet [of web out p "(n, w)" ?irs] by simp
  have b: "fst (send_loop web out p True (n, w) ?irs) = None" if ?ok
    using that by (simp add: send_loop_test_mode)
  have c: "length (new_lines w (snd (snd (send_loop web out p True (n, w) ?irs)))) = length rs"
    if ?ok
    using b [OF that] by (simp add: new_lines_send_loop outcomes_complete)
  have d: "map line_recipient (new_lines w (snd (snd (send_loop web out p True (n, w) ?irs))))
       = map Some rs" if ?ok
    using b [OF that] by (simp add: new_lines_send_loop outcomes_complete enumerate_items)
  have e: "fst (snd (send_loop web out p True (n, w) ?irs))
       = n + int (length (filter (convertible web) rs))" if ?ok
    using that by (simp add: send_loop_test_mode length_filter_enumerate)
  have f: "nonce_at web out p True (n, w) rs i = n + int (i - 1)"
    if ?ok "list_all (convertible web) rs" "1 \<le> i" "i \<le> Suc (length rs)"
  proof -
    have "convertible web (snd ir)" if "ir \<in> set (take (i - 1) ?irs)" for ir
    proof -
      from that have "ir \<in> set ?irs" by (rule in_set_takeD)
      then have "snd ir \<in> set rs" by (rule snd_in_enumerate)
      with \<open>list_all (convertible web) rs\<close> show ?thesis by (simp add: list_all_iff)
    qed
    then have "filter (\<lambda>ir. convertible web (snd ir)) (take (i - 1) ?irs) = take (i - 1) ?irs"
      by simp
    moreover have "length (take (i - 1) ?irs) = i - 1"
      using that(4) by simp
    moreover from that(1) have "list_all (\<lambda>ir. emits out (test_line web p ir)) (take (i - 1) ?irs)"
      by (rule list_all_take)
    ultimately show ?thesis
      by (simp add: nonce_at_def run_upto_def send_loop_test_mode)
  qed
  from a b c d e f show ?thesis by blast
qed

text \<open>
  The theorem at two recipients whose addresses convert, and at two recipients of which
  the second does not convert.
\<close>

theorem test_mode_makes_no_network_call_witness:
  "list_all (\<lambda>ir. emits stub_io (test_line stub_web3 stub_plan ir)) (enumerate 1 [addr_a, addr_bad])
   \<and> list_all (convertible stub_web3) [addr_a, addr_b] \<and> (1::nat) \<le> 2
   \<and> 2 \<le> Suc (length [addr_a, addr_b])
   \<and> list_all (\<lambda>ir. emits stub_io (test_line stub_web3 stub_plan ir)) (enumerate 1 [addr_a, addr_b])
   \<and> nonce_at stub_web3 stub_io stub_plan True (7, stub_world) [addr_a, addr_b] 2 = 7 + int (2 - 1)
   \<and> fst (snd (send_loop stub_web3 stub_io stub_plan True (7, stub_world)
        (enumerate 1 [addr_a, addr_bad])))
       = 7 + int (length (filter (convertible stub_web3) [addr_a, addr_bad]))
   \<and> length (new_lines stub_world (snd (snd (send_loop stub_web3 stub_io stub_plan True
        (7, stub_world) (enumerate 1 [addr_a, addr_bad]))))) = length [addr_a, addr_bad]
   \<and> calls (snd (snd (send_loop stub_web3 stub_io stub_plan True (7, stub_world)
        (enumerate 1 [addr_a, addr_b])))) = calls stub_world"
proof -
  have h: "list_all (\<lambda>ir. emits stub_io (test_line stub_web3 stub_plan ir)) (enumerate 1 [addr_a, addr_bad])
   \<and> list_all (convertible stub_web3) [addr_a, addr_b] \<and> (1::nat) \<le> 2
   \<and> 2 \<le> Suc (length [addr_a, addr_b])
   \<and> list_all (\<lambda>ir. emits stub_io (test_line stub_web3 stub_plan ir)) (enumerate 1 [addr_a, addr_b])"
    by code_simp
  from test_mode_makes_no_network_call
    [where web = stub_web3 and out = stub_io and p = stub_plan and n = 7 and w = stub_world
       and rs = "[addr_a, addr_b]" and i = 2]
    test_mode_makes_no_network_call
    [where web = stub_web3 and out = stub_io and p = stub_plan and n = 7 and w = stub_world
       and rs = "[addr_a, addr_bad]" and i = 1] h
  show ?thesis by blast
qed

text \<open>
  C4 (as stated) fails: in test mode, a recipient that cannot be converted leaves the
  counter where it was, so after two recipients the counter is not the base nonce plus
  two.
\<close>

theorem test_mode_nonce_kept_on_bad_address:
  "new_lines stub_world (snd (snd (send_loop stub_web3 stub_io stub_plan True (7, stub_world)
       (enumerate 1 [addr_bad, addr_a]))))
     = [Failed_to_send 1 addr_bad ''invalid address'', Would_send 2 addr_a 30 21000 630005]
   \<and> fst (snd (send_loop stub_web3 stub_io stub_plan True (7, stub_world)
        (enumerate 1 [addr_bad, addr_a])))
       \<noteq> 7 + int (length [addr_bad, addr_a])"
  by code_simp

subsection \<open>A failure message that cannot be put out\<close>

text \<open>
  C3 (the code at a failing input).  The wallet file names three recipients, the second
  being the JSON string of the lone surrogate U+D800; console and log are in UTF-8.  In a
  real run the first recipient is sent to.  The conversion of the second raises, the
  handler's \<^verbatim>\<open>print\<close> of the error message raises in turn, and \<open>distribute_pol\<close> ends with
  that exception: after the header and the details the log holds the line of the first
  recipient, no line for the second, and the third is never processed.
\<close>

theorem unprintable_recipient_ends_the_batch:
  "fst (distribute_pol stub_web3 stub_io surrogate_directory False 5 stub_world)
     = Inl (LibraryError ''UnicodeEncodeError: surrogates not allowed'')
   \<and> map line_recipient
         (log (snd (distribute_pol stub_web3 stub_io surrogate_directory False 5 stub_world)))
       = [None, None, Some addr_a]"
  by code_simp

text \<open>
  C10 (the code at a failing input).  The same wallet file in test mode: the second
  recipient cannot be converted, and it is not recorded as failed, because the handler's
  \<^verbatim>\<open>print\<close> raises; the run ends there and the third recipient is never converted.
\<close>

theorem unprintable_recipient_ends_the_test_run:
  "to_checksum_address stub_web3 addr_surrogate = Inl ''invalid address''
   \<and> fst (distribute_pol stub_web3 stub_io surrogate_directory True 5 stub_world)
     = Inl (LibraryError ''UnicodeEncodeError: surrogates not allowed'')
   \<and> map line_recipient
         (log (snd (distribute_pol stub_web3 stub_io surrogate_directory True 5 stub_world)))
       = [None, None, Some addr_a]"
  by code_simp

subsection \<open>Credential loading\<close>

lemma load_private_key_Some:
  "load_private_key (Some contents) =
     (if length (normalized_secret contents) = 64
      then Inr (''0x'' @ normalized_secret contents)
      else Inl (InvalidPrivateKeyFormat (length (normalized_secret contents) + 2)))"
proof -
  let ?k = "remove_whitespace contents"
  have key: "(if \<not> startswith ?k ''0x'' then ''0x'' @ ?k else ?k) = ''0x'' @ without_0x ?k"
  proof (cases "startswith ?k ''0x''")
    case True
    then have "take 2 ?k = ''0x''" by (simp add: startswith_def numeral_2_eq_2)
    then have "''0x'' @ drop 2 ?k = ?k" by (metis append_take_drop_id)
    with True show ?thesis by (simp add: without_0x_def)
  next
    case False
    then show ?thesis by (simp add: without_0x_def)
  qed
  show ?thesis
    unfolding load_private_key_def Let_def option.case join_split_filter
      remove_whitespace_strip key normalized_secret_def
    by simp
qed

text \<open>
  C5 (as the code has it).  A missing file gives \<open>MissingCredentialFile\<close>.  Otherwise the
  contents are normalised (all whitespace removed, \<^verbatim>\<open>0x\<close> prepended when absent) and the
  key is accepted exactly when 64 characters follow the prefix, whatever the characters
  are: a wrong length gives \<open>InvalidPrivateKeyFormat\<close>, and every secret of 64 hex digits is
  accepted.
\<close>

theorem load_private_key_checks_length_only:
  "load_private_key None = Inl MissingCredentialFile
   \<and> ((\<exists>key. load_private_key (Some contents) = Inr key)
        = (length (normalized_secret contents) = 64))
   \<and> (load_private_key (Some contents) = Inr (''0x'' @ normalized_secret contents)
        \<or> load_private_key (Some contents)
            = Inl (InvalidPrivateKeyFormat (length (normalized_secret contents) + 2)))
   \<and> (hex64 (normalized_secret contents)
      \<longrightarrow> load_private_key (Some contents) = Inr (''0x'' @ normalized_secret contents))"
  by (simp add: load_private_key_Some hex64_def) (simp add: load_private_key_def)

text \<open>
  The theorem at a file with leading blanks, the prefix, a blank inside the digits and a
  final newline.
\<close>

theorem load_private_key_checks_length_only_witness:
  "hex64 (normalized_secret
            (''  0x'' @ replicate 32 (CHR ''a'') @ '' '' @ replicate 32 (CHR ''7'') @ [CHR 10]))
   \<and> load_private_key
         (Some (''  0x'' @ replicate 32 (CHR ''a'') @ '' '' @ replicate 32 (CHR ''7'') @ [CHR 10]))
       = Inr (''0x'' @ replicate 32 (CHR ''a'') @ replicate 32 (CHR ''7''))"
proof -
  have h: "hex64 (normalized_secret
            (''  0x'' @ replicate 32 (CHR ''a'') @ '' '' @ replicate 32 (CHR ''7'') @ [CHR 10]))"
    by code_simp
  have n: "normalized_secret
            (''  0x'' @ replicate 32 (CHR ''a'') @ '' '' @ replicate 32 (CHR ''7'') @ [CHR 10])
          = replicate 32 (CHR ''a'') @ replicate 32 (CHR ''7'')"
    by code_simp
  from load_private_key_checks_length_only
    [where contents = "''  0x'' @ replicate 32 (CHR ''a'') @ '' '' @ replicate 32 (CHR ''7'')
                         @ [CHR 10]"] h
  show ?thesis unfolding n by blast
qed

text \<open>
  C5 (as stated) fails: a file of 64 letters \<^verbatim>\<open>z\<close> is not 64 hex characters, and it is
  accepted.
\<close>

theorem load_private_key_accepts_non_hex:
  "load_private_key (Some (replicate 64 (CHR ''z''))) = Inr (''0x'' @ replicate 64 (CHR ''z''))
   \<and> \<not> hex64 (normalized_secret (replicate 64 (CHR ''z'')))"
  by code_simp

section \<open>Properties of the generator\<close>

subsection \<open>Decimal strings and file names\<close>

lemma of_char_digit_char: "d < 10 \<Longrightarrow> (of_char (digit_char d) :: nat) = 48 + d"
  by (simp add: digit_char_def)

lemma digit_char_not_underscore: "d < 10 \<Longrightarrow> digit_char d \<noteq> CHR ''_''"
proof
  assume "d < 10" and "digit_char d = CHR ''_''"
  then have "(of_char (digit_char d) :: nat) = of_char (CHR ''_'')" by simp
  with \<open>d < 10\<close> show False by (simp add: of_char_digit_char)
qed

lemma str_nat_no_underscore: "CHR ''_'' \<notin> set (str_nat n)"
proof (induction n rule: str_nat.induct)
  case (1 n)
  show ?case
  proof (cases "n < 10")
    case True
    then show ?thesis
      using digit_char_not_underscore [of n] by (subst str_nat.simps) auto
  next
    case False
    have "n mod 10 < 10" by simp
    then have "digit_char (n mod 10) \<noteq> CHR ''_''" by (rule digit_char_not_underscore)
    with False 1 show ?thesis
      by (subst str_nat.simps) auto
  qed
qed

lemma nat_of_str_snoc: "nat_of_str (s @ [c]) = 10 * nat_of_str s + (of_char c - 48)"
  by (simp add: nat_of_str_def)

lemma nat_of_str_str_nat: "nat_of_str (str_nat n) = n"
proof (induction n rule: str_nat.induct)
  case (1 n)
  show ?case
  proof (cases "n < 10")
    case True
    then show ?thesis
      by (subst str_nat.simps) (simp add: nat_of_str_def of_char_digit_char)
  next
    case False
    have "n mod 10 < 10" by simp
    then have "(of_char (digit_char (n mod 10)) :: nat) = 48 + n mod 10"
      by (rule of_char_digit_char)
    with False 1 show ?thesis
      by (subst str_nat.simps) (simp add: nat_of_str_snoc)
  qed
qed

lemma str_nat_inj: "str_nat m = str_nat n \<Longrightarrow> m = n"
  by (metis nat_of_str_str_nat)

lemma name_number_numbered:
  "name_number (''wallet_'' @ ts @ ''_'' @ str_nat k @ ''.json'') = str_nat k"
proof -
  have "rev (''wallet_'' @ ts @ ''_'' @ str_nat k @ ''.json'')
      = ''nosj.'' @ rev (str_nat k) @ (CHR ''_'' # rev ts @ ''_tellaw'')"
    by simp
  then have "drop 5 (rev (''wallet_'' @ ts @ ''_'' @ str_nat k @ ''.json''))
      = rev (str_nat k) @ (CHR ''_'' # rev ts @ ''_tellaw'')"
    by simp
  moreover have "takeWhile (\<lambda>c. c \<noteq> CHR ''_'') (rev (str_nat k) @ (CHR ''_'' # rev ts @ ''_tellaw''))
      = rev (str_nat k)"
    using str_nat_no_underscore [of k] by (subst takeWhile_append2) auto
  ultimately show ?thesis
    by (simp add: name_number_def)
qed

subsection \<open>The wallet loop\<close>

lemma generate_wallet_files:
  "files (snd (generate_wallet lb src number g))
     = files g @ [record_file (fst (generate_wallet lb src number g))]"
  by (simp add: generate_wallet_def Let_def record_file_def)

lemma generate_wallet_name:
  "i \<noteq> 0 \<Longrightarrow> name_number (snd (fst (generate_wallet lb src (Some i) g))) = str_nat i"
proof -
  assume "i \<noteq> 0"
  then have "snd (fst (generate_wallet lb src (Some i) g))
      = ''wallet_'' @ strftime_stamp (now src (clock g + 1)) @ ''_'' @ str_nat i @ ''.json''"
    by (simp add: generate_wallet_def Let_def)
  then show ?thesis
    by (simp only: name_number_numbered)
qed

lemma generate_wallet_name_ends:
  "last (snd (fst (generate_wallet lb src number g))) = CHR ''n''
   \<and> hd (snd (fst (generate_wallet lb src number g))) = CHR ''w''"
  by (simp add: generate_wallet_def Let_def split: option.splits)

lemma wallet_step_fields:
  "all_wallets (wallet_step lb src count s i)
     = all_wallets s @ [fst (fst (generate_wallet lb src (Some i) (world s)))]"
  "public_addresses (wallet_step lb src count s i)
     = public_addresses s @ [public_key (fst (fst (generate_wallet lb src (Some i) (world s))))]"
  "world (wallet_step lb src count s i) = snd (generate_wallet lb src (Some i) (world s))"
  by (simp_all add: wallet_step_def Let_def)

lemma wallet_loop_all_wallets:
  "all_wallets (wallet_loop lb src count s is)
     = all_wallets s @ map fst (loop_made lb src (world s) is)"
  by (induction "is" arbitrary: s) (simp_all add: wallet_step_fields)

lemma wallet_loop_public_addresses:
  "public_addresses (wallet_loop lb src count s is)
     = public_addresses s @ map (\<lambda>m. public_key (fst m)) (loop_made lb src (world s) is)"
  by (induction "is" arbitrary: s) (simp_all add: wallet_step_fields)

lemma wallet_loop_files:
  "files (world (wallet_loop lb src count s is))
     = files (world s) @ map record_file (loop_made lb src (world s) is)"
  by (induction "is" arbitrary: s) (simp_all add: wallet_step_fields generate_wallet_files)

lemma wallet_loop_clock:
  "clock (world (wallet_loop lb src count s is)) = clock (world s) + 2 * length is"
  by (induction "is" arbitrary: s)
    (simp_all add: wallet_step_fields generate_wallet_def Let_def)

lemma length_loop_made: "length (loop_made lb src g is) = length is"
  by (induction "is" arbitrary: g) simp_all

lemma loop_made_numbers:
  "0 \<notin> set is \<Longrightarrow> map (\<lambda>m. name_number (snd m)) (loop_made lb src g is) = map str_nat is"
  by (induction "is" arbitrary: g) (simp_all add: generate_wallet_name)

lemma distinct_of_map: "distinct (map f xs) \<Longrightarrow> distinct xs"
  by (simp add: distinct_map)

lemma loop_made_names_distinct:
  assumes "0 \<notin> set is" "distinct is"
  shows "distinct (map snd (loop_made lb src g is))"
proof -
  have "inj_on str_nat (set is)"
    by (rule inj_onI) (rule str_nat_inj)
  with assms(2) have "distinct (map str_nat is)"
    by (simp add: distinct_map)
  then have "distinct (map name_number (map snd (loop_made lb src g is)))"
    using loop_made_numbers [OF assms(1), of lb src g] by (simp add: comp_def)
  then show ?thesis
    by (rule distinct_of_map)
qed

lemma loop_made_name_ends:
  "name \<in> set (map snd (loop_made lb src g is)) \<Longrightarrow> last name = CHR ''n'' \<and> hd name = CHR ''w''"
proof (induction "is" arbitrary: g)
  case Nil
  then show ?case by simp
next
  case (Cons i "is")
  then show ?case
    using generate_wallet_name_ends [of lb src "Some i" g] by auto
qed

text \<open>The files of a whole run.\<close>

lemma generate_multiple_wallets_files:
  "files (generate_multiple_wallets lb src count g) =
     files g
     @ map record_file (loop_made lb src (g\<lparr>clock := clock g + 1\<rparr>) [1..<count + 1])
     @ [(''wallet_cards_'' @ strftime_stamp (now src (clock g)) @ ''.pdf'',
         Pdf (pdf (wallet_loop lb src count
                \<lparr> all_wallets = [], public_addresses = [], pdf = [Add_page],
                   world = g\<lparr>clock := clock g + 1\<rparr> \<rparr> [1..<count + 1]))),
        (''all_wallets_'' @ strftime_stamp (now src (clock g)) @ ''.json'',
         Json (JArr (map wallet_json
           (map fst (loop_made lb src (g\<lparr>clock := clock g + 1\<rparr>) [1..<count + 1]))))),
        (''public_addresses_'' @ strftime_stamp (now src (clock g)) @ ''.json'',
         Json (JObj [(text_of ''addresses'', JArr (map jstr
                       (map (\<lambda>m. public_key (fst m))
                          (loop_made lb src (g\<lparr>clock := clock g + 1\<rparr>) [1..<count + 1])))),
                     (text_of ''count'', JInt (int count)),
                     (text_of ''created_at'', jstr (strftime_human (now src (clock g + 1 + 2 * count))))]))]"
  by (simp add: generate_multiple_wallets_def Let_def wallet_loop_files wallet_loop_all_wallets
      wallet_loop_public_addresses wallet_loop_clock length_loop_made del: upt_Suc)

subsection \<open>Files of a run\<close>

lemma kind_of_record_file: "kind_of (snd (record_file m)) = Key_record"
  by (simp add: record_file_def kind_of_def is_key_record_def wallet_json_def)

lemma list_all_key_records: "list_all is_key_record (map wallet_json ws)"
  by (induction ws) (simp_all add: is_key_record_def wallet_json_def)

lemma list_all_strings: "list_all is_string (map jstr xs)"
  by (induction xs) (simp_all add: is_string_def jstr_def)

lemma kind_of_pdf: "kind_of (Pdf doc) = Cards"
  by (simp add: kind_of_def)

lemma kind_of_aggregate: "kind_of (Json (JArr (map wallet_json ws))) = Aggregate (length ws)"
  by (simp add: kind_of_def list_all_key_records)

lemma kind_of_addresses:
  "kind_of (Json (JObj [(text_of ''addresses'', JArr (map jstr xs)), (text_of ''count'', JInt n),
                        (text_of ''created_at'', jstr t)])) = Addresses (length xs) n"
  by (simp add: kind_of_def is_key_record_def list_all_strings jstr_def)

lemma kinds_of_record_files:
  "map (\<lambda>f. kind_of (snd f)) (map record_file ms) = replicate (length ms) Key_record"
  by (induction ms) (simp_all add: kind_of_record_file)

lemma fst_record_file: "map fst (map record_file ms) = map snd ms"
  by (simp add: record_file_def comp_def)

lemma written_generate_multiple_wallets:
  "written g (generate_multiple_wallets lb src count g) =
     map record_file (loop_made lb src (g\<lparr>clock := clock g + 1\<rparr>) [1..<count + 1])
     @ [(''wallet_cards_'' @ strftime_stamp (now src (clock g)) @ ''.pdf'',
         Pdf (pdf (wallet_loop lb src count
                \<lparr> all_wallets = [], public_addresses = [], pdf = [Add_page],
                   world = g\<lparr>clock := clock g + 1\<rparr> \<rparr> [1..<count + 1]))),
        (''all_wallets_'' @ strftime_stamp (now src (clock g)) @ ''.json'',
         Json (JArr (map wallet_json
           (map fst (loop_made lb src (g\<lparr>clock := clock g + 1\<rparr>) [1..<count + 1]))))),
        (''public_addresses_'' @ strftime_stamp (now src (clock g)) @ ''.json'',
         Json (JObj [(text_of ''addresses'', JArr (map jstr
                       (map (\<lambda>m. public_key (fst m))
                          (loop_made lb src (g\<lparr>clock := clock g + 1\<rparr>) [1..<count + 1])))),
                     (text_of ''count'', JInt (int count)),
                     (text_of ''created_at'', jstr (strftime_human (now src (clock g + 1 + 2 * count))))]))]"
  unfolding written_def generate_multiple_wallets_files by simp

lemma multiple_wallets_files:
  "map (\<lambda>f. kind_of (snd f)) (written g (generate_multiple_wallets lb src N g))
       = replicate N Key_record @ [Cards, Aggregate N, Addresses N (int N)]
   \<and> distinct (map fst (written g (generate_multiple_wallets lb src N g)))"
proof -
  let ?made = "loop_made lb src (g\<lparr>clock := clock g + 1\<rparr>) [1..<N + 1]"
  let ?ts = "strftime_stamp (now src (clock g))"
  have len: "length ?made = N"
    by (simp add: length_loop_made del: upt_Suc)
  have kinds: "map (\<lambda>f. kind_of (snd f)) (written g (generate_multiple_wallets lb src N g))
       = replicate N Key_record @ [Cards, Aggregate N, Addresses N (int N)]"
    unfolding written_generate_multiple_wallets
    by (simp only: map_append list.map snd_conv kinds_of_record_files kind_of_aggregate
        kind_of_addresses kind_of_pdf length_map len)
  have "0 \<notin> set [1..<N + 1]" "distinct [1..<N + 1]"
    by simp_all
  then have d: "distinct (map snd ?made)"
    by (rule loop_made_names_distinct)
  have ends: "last name = CHR ''n'' \<and> hd name = CHR ''w''" if "name \<in> set (map snd ?made)" for name
    using that by (rule loop_made_name_ends)
  have pdf: "''wallet_cards_'' @ ?ts @ ''.pdf'' \<notin> set (map snd ?made)"
  proof
    assume "''wallet_cards_'' @ ?ts @ ''.pdf'' \<in> set (map snd ?made)"
    then have "last (''wallet_cards_'' @ ?ts @ ''.pdf'') = CHR ''n''"
      using ends by blast
    then show False by simp
  qed
  have master: "''all_wallets_'' @ ?ts @ ''.json'' \<notin> set (map snd ?made)"
  proof
    assume "''all_wallets_'' @ ?ts @ ''.json'' \<in> set (map snd ?made)"
    then have "hd (''all_wallets_'' @ ?ts @ ''.json'') = CHR ''w''"
      using ends by blast
    then show False by simp
  qed
  have addresses: "''public_addresses_'' @ ?ts @ ''.json'' \<notin> set (map snd ?made)"
  proof
    assume "''public_addresses_'' @ ?ts @ ''.json'' \<in> set (map snd ?made)"
    then have "hd (''public_addresses_'' @ ?ts @ ''.json'') = CHR ''w''"
      using ends by blast
    then show False by simp
  qed
  have "distinct (map fst (written g (generate_multiple_wallets lb src N g)))"
    unfolding written_generate_multiple_wallets map_append fst_record_file
    using d pdf master addresses by simp
  with kinds show ?thesis by simp
qed

lemma written_count_1:
  "written g (create_wallet_main lb src 1 False g) =
     [record_file (fst (generate_wallet lb src None g)),
      (''wallet_card_'' @ strftime_stamp (now src (clock g + 2)) @ ''.pdf'',
       Pdf (create_wallet_card [Add_page] (fst (fst (generate_wallet lb src None g)))))]"
proof -
  have "clock (snd (generate_wallet lb src None g)) = clock g + 2"
    by (simp add: generate_wallet_def Let_def)
  then show ?thesis
    by (simp add: create_wallet_main_def Let_def written_def generate_wallet_files)
qed

lemma kinds_count_1:
  "map (\<lambda>f. kind_of (snd f)) (written g (create_wallet_main lb src 1 False g))
     = [Key_record, Cards]"
  unfolding written_count_1 by (simp add: kind_of_record_file kind_of_pdf)

text \<open>
  C7 (as the code has it).  A requested count of 2 or more reaches
  \<open>generate_multiple_wallets\<close>, and the run writes that many key record files, then the card
  document, one aggregate file of as many key records and one addresses file with as many
  addresses and that count, all under pairwise distinct names.  A requested count of 1
  writes one key record file and one card document and nothing else.  The function
  \<open>generate_multiple_wallets\<close> itself writes the files of the first sentence for every
  \<open>N\<close>.
\<close>

theorem requested_count_file_counts:
  "(2 \<le> count
      \<longrightarrow> map (\<lambda>f. kind_of (snd f)) (written g (create_wallet_main lb src count False g))
            = replicate (nat count) Key_record
              @ [Cards, Aggregate (nat count), Addresses (nat count) count]
          \<and> distinct (map fst (written g (create_wallet_main lb src count False g))))
   \<and> map (\<lambda>f. kind_of (snd f)) (written g (create_wallet_main lb src 1 False g))
       = [Key_record, Cards]
   \<and> map (\<lambda>f. kind_of (snd f)) (written g (generate_multiple_wallets lb src N g))
       = replicate N Key_record @ [Cards, Aggregate N, Addresses N (int N)]
   \<and> distinct (map fst (written g (generate_multiple_wallets lb src N g)))"
proof -
  have a: "map (\<lambda>f. kind_of (snd f)) (written g (create_wallet_main lb src count False g))
            = replicate (nat count) Key_record
              @ [Cards, Aggregate (nat count), Addresses (nat count) count]
          \<and> distinct (map fst (written g (create_wallet_main lb src count False g)))"
    if "2 \<le> count"
  proof -
    from that have "create_wallet_main lb src count False g
        = generate_multiple_wallets lb src (nat count) g"
      by (simp add: create_wallet_main_def)
    moreover from that have "int (nat count) = count" by simp
    ultimately show ?thesis
      using multiple_wallets_files [of g lb src "nat count"] by simp
  qed
  from a kinds_count_1 [of g lb src] multiple_wallets_files [of g lb src N]
  show ?thesis by blast
qed

text \<open>
  The theorem at a requested count of 2.
\<close>

theorem requested_count_file_counts_witness:
  "(2::int) \<le> 2
   \<and> map (\<lambda>f. kind_of (snd f))
         (written stub_gen_world (create_wallet_main stub_lib stub_sources 2 False stub_gen_world))
       = [Key_record, Key_record, Cards, Aggregate 2, Addresses 2 2]
   \<and> distinct (map fst (written stub_gen_world
         (create_wallet_main stub_lib stub_sources 2 False stub_gen_world)))"
proof -
  have h: "(2::int) \<le> 2" by simp
  from requested_count_file_counts
    [where count = 2 and g = stub_gen_world and lb = stub_lib and src = stub_sources] h
  show ?thesis by (simp add: numeral_2_eq_2)
qed

text \<open>
  C7 (as stated) fails at a requested count of 1: the run writes a key record file and a
  card document, and no aggregate file and no addresses file.
\<close>

theorem single_wallet_writes_no_aggregate:
  "map (\<lambda>f. kind_of (snd f))
      (written stub_gen_world (create_wallet_main stub_lib stub_sources 1 False stub_gen_world))
     = [Key_record, Cards]
   \<and> [Key_record, Cards] \<noteq> replicate 1 Key_record @ [Cards, Aggregate 1, Addresses 1 1]"
  by (simp add: kinds_count_1)

lemma public_keys_made:
  "public_keys (map wallet_json (map fst ms))
     = Inr (map jstr (map (\<lambda>m. public_key (fst m)) ms))"
  by (induction ms) (simp_all add: subscript_public_key_def wallet_json_def text_of_eq)

lemma recipients_of_aggregate:
  "recipients_of (JArr (map wallet_json (map fst ms)))
     = Inr (map jstr (map (\<lambda>m. public_key (fst m)) ms))"
  unfolding recipients_of_def iterate_def json.case sum.case by (rule public_keys_made)

lemma stored_addresses_object:
  "stored_addresses (Some (Json (JObj ((text_of ''addresses'', JArr xs) # rest)))) = Some xs"
  by (simp add: stored_addresses_def)

lemma read_last_two:
  "name2 \<noteq> name3 \<Longrightarrow>
     files g = earlier @ [f1, (name2, c2), (name3, c3)] \<Longrightarrow>
     read_file g name2 = Some c2 \<and> read_file g name3 = Some c3"
  by (simp add: read_file_def)

text \<open>
  C8.  After a run, the addresses the distributor extracts from the aggregate file (the
  \<open>public_key\<close> of each record, in order) are the list stored under \<open>addresses\<close> in the
  addresses file of the same run, and that list has one entry per wallet.
\<close>

theorem aggregate_addresses_round_trip:
  "extracted_addresses
      (read_file (generate_multiple_wallets lb src N g)
         (''all_wallets_'' @ strftime_stamp (now src (clock g)) @ ''.json''))
     = stored_addresses
         (read_file (generate_multiple_wallets lb src N g)
            (''public_addresses_'' @ strftime_stamp (now src (clock g)) @ ''.json''))
   \<and> map_option length
         (stored_addresses
            (read_file (generate_multiple_wallets lb src N g)
               (''public_addresses_'' @ strftime_stamp (now src (clock g)) @ ''.json'')))
       = Some N"
proof -
  let ?made = "loop_made lb src (g\<lparr>clock := clock g + 1\<rparr>) [1..<N + 1]"
  let ?ts = "strftime_stamp (now src (clock g))"
  let ?g = "generate_multiple_wallets lb src N g"
  have len: "length ?made = N"
    by (simp add: length_loop_made del: upt_Suc)
  have ne: "''all_wallets_'' @ ?ts @ ''.json'' \<noteq> ''public_addresses_'' @ ?ts @ ''.json''"
    by simp
  have fs: "files ?g = (files g @ map record_file ?made)
     @ [(''wallet_cards_'' @ ?ts @ ''.pdf'',
         Pdf (pdf (wallet_loop lb src N
                \<lparr> all_wallets = [], public_addresses = [], pdf = [Add_page],
                   world = g\<lparr>clock := clock g + 1\<rparr> \<rparr> [1..<N + 1]))),
        (''all_wallets_'' @ ?ts @ ''.json'', Json (JArr (map wallet_json (map fst ?made)))),
        (''public_addresses_'' @ ?ts @ ''.json'',
         Json (JObj [(text_of ''addresses'', JArr (map jstr (map (\<lambda>m. public_key (fst m)) ?made))),
                     (text_of ''count'', JInt (int N)),
                     (text_of ''created_at'', jstr (strftime_human (now src (clock g + 1 + 2 * N))))]))]"
    unfolding generate_multiple_wallets_files by simp
  note r = read_last_two [OF ne fs]
  have a: "extracted_addresses (read_file ?g (''all_wallets_'' @ ?ts @ ''.json''))
      = Some (map jstr (map (\<lambda>m. public_key (fst m)) ?made))"
    by (simp only: r extracted_addresses_def recipients_of_aggregate option.case content.case
        sum.case)
  have b: "stored_addresses (read_file ?g (''public_addresses_'' @ ?ts @ ''.json''))
      = Some (map jstr (map (\<lambda>m. public_key (fst m)) ?made))"
    by (simp only: r stored_addresses_object)
  from len have "map_option length (Some (map jstr (map (\<lambda>m. public_key (fst m)) ?made))) = Some N"
    by simp
  with a b show ?thesis by (simp only:)
qed

subsection \<open>Key derivation\<close>

text \<open>
  C6.  Two runs of \<open>generate_wallet\<close> with the same libraries, whatever their clock, entropy
  source, wallet number and earlier files, that work on the same mnemonic produce the same
  address and the same private key.
\<close>

theorem same_mnemonic_same_keys:
  "mnemonic (fst (fst (generate_wallet lb src1 n1 g1)))
     = mnemonic (fst (fst (generate_wallet lb src2 n2 g2)))
   \<Longrightarrow> public_key (fst (fst (generate_wallet lb src1 n1 g1)))
         = public_key (fst (fst (generate_wallet lb src2 n2 g2)))
     \<and> private_key (fst (fst (generate_wallet lb src1 n1 g1)))
         = private_key (fst (fst (generate_wallet lb src2 n2 g2)))"
  by (simp add: generate_wallet_def Let_def)

text \<open>
  The theorem at two runs that draw the same phrase at different times and under
  different wallet numbers.
\<close>

theorem same_mnemonic_same_keys_witness:
  "mnemonic (fst (fst (generate_wallet stub_lib stub_sources None stub_gen_world)))
     = mnemonic (fst (fst (generate_wallet stub_lib stub_sources (Some 3)
                             (stub_gen_world\<lparr>clock := 5\<rparr>))))
   \<and> wallet_number (fst (fst (generate_wallet stub_lib stub_sources None stub_gen_world)))
     \<noteq> wallet_number (fst (fst (generate_wallet stub_lib stub_sources (Some 3)
                             (stub_gen_world\<lparr>clock := 5\<rparr>))))
   \<and> public_key (fst (fst (generate_wallet stub_lib stub_sources None stub_gen_world)))
     = public_key (fst (fst (generate_wallet stub_lib stub_sources (Some 3)
                             (stub_gen_world\<lparr>clock := 5\<rparr>))))
   \<and> private_key (fst (fst (generate_wallet stub_lib stub_sources None stub_gen_world)))
     = private_key (fst (fst (generate_wallet stub_lib stub_sources (Some 3)
                             (stub_gen_world\<lparr>clock := 5\<rparr>))))"
proof -
  have h: "mnemonic (fst (fst (generate_wallet stub_lib stub_sources None stub_gen_world)))
     = mnemonic (fst (fst (generate_wallet stub_lib stub_sources (Some 3)
                             (stub_gen_world\<lparr>clock := 5\<rparr>))))"
    by (simp add: generate_wallet_def Let_def stub_gen_world_def)
  have d: "wallet_number (fst (fst (generate_wallet stub_lib stub_sources None stub_gen_world)))
     \<noteq> wallet_number (fst (fst (generate_wallet stub_lib stub_sources (Some 3)
                             (stub_gen_world\<lparr>clock := 5\<rparr>))))"
    by (simp add: generate_wallet_def Let_def)
  from same_mnemonic_same_keys [OF h] h d show ?thesis by blast
qed

text \<open>
  C9.  The address of a wallet is the address of the account made from the first 32 bytes
  of the seed of its mnemonic under the empty passphrase, and its private key is the hex
  form of that account's key; no derivation step lies between the seed and the key, so
  with a library whose accounts keep the key they were made from, the private key is the
  hex form of the first 32 bytes of the seed.
\<close>

theorem private_key_is_seed_prefix:
  "public_key (fst (fst (generate_wallet lb src number g)))
     = acct_address (from_key lb (take 32
         (mnemo_to_seed lb (mnemonic (fst (fst (generate_wallet lb src number g)))) [])))
   \<and> private_key (fst (fst (generate_wallet lb src number g)))
     = hex lb (acct_key (from_key lb (take 32
         (mnemo_to_seed lb (mnemonic (fst (fst (generate_wallet lb src number g)))) []))))
   \<and> ((\<forall>k. acct_key (from_key lb k) = k)
      \<longrightarrow> private_key (fst (fst (generate_wallet lb src number g)))
            = hex lb (take 32
                (mnemo_to_seed lb (mnemonic (fst (fst (generate_wallet lb src number g)))) [])))"
  by (simp add: generate_wallet_def Let_def)

text \<open>
  The theorem at the first wallet of the small library.
\<close>

theorem private_key_is_seed_prefix_witness:
  "(\<forall>k. acct_key (from_key stub_lib k) = k)
   \<and> private_key (fst (fst (generate_wallet stub_lib stub_sources None stub_gen_world)))
       = hex stub_lib (take 32 (mnemo_to_seed stub_lib ''abandon ability 0'' []))"
proof -
  have h: "\<forall>k. acct_key (from_key stub_lib k) = k"
    by (simp add: stub_lib_def)
  have zero: "str_nat 0 = ''0''"
    by code_simp
  have m: "mnemonic (fst (fst (generate_wallet stub_lib stub_sources None stub_gen_world)))
      = ''abandon ability 0''"
    by (simp add: generate_wallet_def Let_def stub_gen_world_def stub_sources_def zero)
  from private_key_is_seed_prefix [of stub_lib stub_sources None stub_gen_world] h
  show ?thesis unfolding m by blast
qed


end
